theory Spec2Isabelle
  imports Complex_Main "HOL-Library.Sublist"
begin

section \<open>TypoNoMo: the typo-URL detection engine of \<^verbatim>\<open>content.js\<close>\<close>

text \<open>
  The development follows \<^verbatim>\<open>src/content.js\<close>: the SMO-trained support vector machine
  (\<^verbatim>\<open>svmjs\<close>, lines 4-367), the name-server lookup (\<^verbatim>\<open>DNS\<close>, lines 375-423), the
  prefilter (\<^verbatim>\<open>Prefiltering\<close>, lines 545-605) and the feature extractor
  (\<^verbatim>\<open>calculateFeatures\<close>, lines 607-819).

  Conventions of the embedding.
  \<^item> A JavaScript number is a \<^typ>\<open>real\<close>: rounding, infinities and NaN are outside the
    model. Counters and array lengths are \<^typ>\<open>nat\<close>.
  \<^item> An array is a list. A read \<^verbatim>\<open>a[i]\<close> is \<open>a ! i\<close>; JavaScript yields
    \<^verbatim>\<open>undefined\<close> out of range (NaN in arithmetic), so every theorem that depends on a
    read states the shape the source comments require ("data is NxD array of floats",
    "inst is an array of length D").
  \<^item> A method takes the object \<^verbatim>\<open>this\<close> as its first argument and returns it updated.
  \<^item> A call either returns or throws: its outcome is \<open>error + 'a\<close>, \<open>Inl\<close> the exception.
  \<^item> A loop that may run forever returns an \<open>option\<close>; \<open>None\<close> is "does not return".
  \<^item> \<^verbatim>\<open>console.log\<close> output is returned as a list of lines.
  \<^item> A string is a list of 8-bit characters; \<^verbatim>\<open>toLowerCase\<close> and \<^verbatim>\<open>\w\<close> are the ASCII ones.
\<close>

datatype error = TypeError | SyntaxError

subsection \<open>Kernels and utilities (lines 327-358)\<close>

text \<open>
  \<^verbatim>\<open>makeRbfKernel(sigma)\<close>: the loop runs over \<^verbatim>\<open>v1.length\<close>. \<^verbatim>\<open>train\<close> never stores a zero
  width; with a zero width the quotient is an infinity or NaN in JavaScript, which is
  outside the model.
\<close>

definition makeRbfKernel :: "real \<Rightarrow> real list \<Rightarrow> real list \<Rightarrow> real" where
  "makeRbfKernel sigma v1 v2 =
     exp (- (fold (\<lambda>q s. s + (v1 ! q - v2 ! q) * (v1 ! q - v2 ! q)) [0..<length v1] 0)
            / (2 * sigma * sigma))"

definition linearKernel :: "real list \<Rightarrow> real list \<Rightarrow> real" where
  "linearKernel v1 v2 = fold (\<lambda>q s. s + v1 ! q * v2 ! q) [0..<length v1] 0"

text \<open>\<^verbatim>\<open>randi(a, b)\<close> applied to one draw \<open>r\<close> of \<^verbatim>\<open>Math.random()\<close>.\<close>

definition randi :: "real \<Rightarrow> real \<Rightarrow> real \<Rightarrow> int" where
  "randi r a c = \<lfloor>r * (c - a) + a\<rfloor>"

definition zeros :: "nat \<Rightarrow> real list" where
  "zeros n = replicate n 0"

subsection \<open>The classifier object\<close>

text \<open>
  The properties of an \<^verbatim>\<open>SVM\<close> object. \<open>usew\<close> is the source's \<^verbatim>\<open>usew_\<close> (read only for
  its truthiness); \<open>kernelType\<close> and \<open>kernelResults\<close> are \<open>None\<close> while undefined.
\<close>

record svm =
  data :: "real list list"
  labels :: "real list"
  kernelType :: "string option"
  rbfSigma :: real
  kernel :: "real list \<Rightarrow> real list \<Rightarrow> real"
  N :: nat
  D :: nat
  alpha :: "real list"
  b :: real
  usew :: bool
  w :: "real list"
  kernelResults :: "real list list option"

text \<open>
  \<^verbatim>\<open>new SVM()\<close>: the constructor sets nothing. The numeric placeholders stand for
  \<^verbatim>\<open>undefined\<close>; \<^verbatim>\<open>train\<close> and \<^verbatim>\<open>fromJSON\<close> overwrite what they use.
\<close>

definition new_SVM :: svm where
  "new_SVM = \<lparr>data = [], labels = [], kernelType = None, rbfSigma = 0,
     kernel = (\<lambda>v1 v2. 0), N = 0, D = 0, alpha = [], b = 0, usew = False, w = [],
     kernelResults = None\<rparr>"

subsection \<open>Prediction (lines 193-249)\<close>

definition marginOne :: "svm \<Rightarrow> real list \<Rightarrow> real" where
  "marginOne m inst =
     (if usew m
      then fold (\<lambda>j f. f + inst ! j * w m ! j) [0..<D m] (b m)
      else fold (\<lambda>i f. f + alpha m ! i * labels m ! i * kernel m inst (data m ! i))
             [0..<N m] (b m))"

definition predictOne :: "svm \<Rightarrow> real list \<Rightarrow> int" where
  "predictOne m inst = (if marginOne m inst > 0 then 1 else - 1)"

definition margins :: "svm \<Rightarrow> real list list \<Rightarrow> real list" where
  "margins m dat = map (\<lambda>i. marginOne m (dat ! i)) [0..<length dat]"

definition kernelResult :: "svm \<Rightarrow> nat \<Rightarrow> nat \<Rightarrow> real" where
  "kernelResult m i j =
     (case kernelResults m of
        Some kr \<Rightarrow> kr ! i ! j
      | None \<Rightarrow> kernel m (data m ! i) (data m ! j))"

definition predict :: "svm \<Rightarrow> real list list \<Rightarrow> int list" where
  "predict m dat = map (\<lambda>x. if x > 0 then 1 else - 1) (margins m dat)"

subsection \<open>Training (lines 21-188)\<close>

text \<open>
  The \<^verbatim>\<open>options\<close> object: an absent property is \<open>None\<close>. \<^verbatim>\<open>options.kernel\<close> is a string or
  anything else, which the source takes for a function.
\<close>

datatype kernel_option =
    KernelName string
  | KernelFunction "real list \<Rightarrow> real list \<Rightarrow> real"

record options =
  opt_C :: "real option"
  opt_tol :: "real option"
  opt_alphatol :: "real option"
  opt_maxiter :: "real option"
  opt_numpasses :: "real option"
  opt_kernel :: "kernel_option option"
  opt_rbfsigma :: "real option"
  opt_memoize :: bool

text \<open>The empty object \<^verbatim>\<open>{}\<close> of \<^verbatim>\<open>options = options || {}\<close>.\<close>

definition no_options :: options where
  "no_options = \<lparr>opt_C = None, opt_tol = None, opt_alphatol = None, opt_maxiter = None,
     opt_numpasses = None, opt_kernel = None, opt_rbfsigma = None, opt_memoize = False\<rparr>"

text \<open>\<^verbatim>\<open>v || d\<close> on a numeric property: an absent value and 0 are falsy.\<close>

definition or_default :: "real option \<Rightarrow> real \<Rightarrow> real" where
  "or_default v d = (case v of None \<Rightarrow> d | Some x \<Rightarrow> if x = 0 then d else x)"

text \<open>
  Lines 36-56: the kernel chosen from the options, with the fields it records in
  \<^verbatim>\<open>this\<close>. A string other than "linear" and "rbf" leaves the linear kernel in place.
\<close>

definition select_kernel :: "options \<Rightarrow> svm \<Rightarrow> (real list \<Rightarrow> real list \<Rightarrow> real) \<times> svm" where
  "select_kernel opts m =
     (let m1 = m\<lparr>kernelType := Some ''linear''\<rparr>
      in case opt_kernel opts of
           None \<Rightarrow> (linearKernel, m1)
         | Some (KernelName s) \<Rightarrow>
             (let (k2, m2) = (if s = ''linear''
                              then (linearKernel, m1\<lparr>kernelType := Some ''linear''\<rparr>)
                              else (linearKernel, m1))
              in if s = ''rbf''
                 then (let rbfSigma' = or_default (opt_rbfsigma opts) 0.5
                       in (makeRbfKernel rbfSigma',
                           m2\<lparr>rbfSigma := rbfSigma', kernelType := Some ''rbf''\<rparr>))
                 else (k2, m2))
         | Some (KernelFunction f) \<Rightarrow> (f, m1\<lparr>kernelType := Some ''custom''\<rparr>))"

text \<open>The local variables of \<^verbatim>\<open>train\<close> that the SMO loop reads.\<close>

record train_locals =
  l_data :: "real list list"
  l_labels :: "real list"
  l_C :: real
  l_tol :: real
  l_maxiter :: real
  l_numpasses :: real
  l_N :: nat

text \<open>
  Line 92, \<^verbatim>\<open>while(j === i) j = randi(0, this.N)\<close>, entered with \<open>j = i\<close>. \<open>rnd\<close> is the
  sequence of results of \<^verbatim>\<open>Math.random()\<close> and \<open>k\<close> the number of draws made so far; the
  result is the index chosen and the new number of draws.
\<close>

partial_function (option) pick_j :: "(nat \<Rightarrow> real) \<Rightarrow> nat \<Rightarrow> nat \<Rightarrow> nat \<Rightarrow> (int \<times> nat) option" where
  "pick_j rnd n i k =
     (if randi (rnd k) 0 (real n) = int i
      then pick_j rnd n i (Suc k)
      else Some (randi (rnd k) 0 (real n), Suc k))"

text \<open>
  Lines 98-105: the bounds \<^verbatim>\<open>L\<close> and \<^verbatim>\<open>H\<close> that keep the pair in the box; \<open>same\<close> is
  \<^verbatim>\<open>labels[i] === labels[j]\<close>.
\<close>

definition box_bounds :: "real \<Rightarrow> bool \<Rightarrow> real \<Rightarrow> real \<Rightarrow> real \<times> real" where
  "box_bounds C same ai aj =
     (if same then (max 0 (ai + aj - C), min C (ai + aj))
      else (max 0 (aj - ai), min C (C + aj - ai)))"

text \<open>Lines 115-116: \<^verbatim>\<open>if(newaj>H) newaj = H; if(newaj<L) newaj = L;\<close>\<close>

definition clip :: "real \<Rightarrow> real \<Rightarrow> real \<Rightarrow> real" where
  "clip newaj L H =
     (let newaj1 = (if newaj > H then H else newaj)
      in if newaj1 < L then L else newaj1)"

text \<open>Lines 127-129: the three assignments to \<^verbatim>\<open>this.b\<close>.\<close>

definition new_bias :: "real \<Rightarrow> real \<Rightarrow> real \<Rightarrow> real \<Rightarrow> real \<Rightarrow> real" where
  "new_bias C newai newaj b1 b2 =
     (let b0 = 0.5 * (b1 + b2);
          b' = (if newai > 0 \<and> newai < C then b1 else b0)
      in if newaj > 0 \<and> newaj < C then b2 else b')"

text \<open>
  Lines 93-131: the update of the pair \<open>i\<close>, \<open>j\<close> once \<open>j\<close> is chosen. Each \<^verbatim>\<open>continue\<close>
  leaves the object and the counter \<^verbatim>\<open>alphaChanged\<close> as they are.
\<close>

definition smo_pair :: "train_locals \<Rightarrow> nat \<Rightarrow> nat \<Rightarrow> real \<Rightarrow> svm \<times> nat \<Rightarrow> svm \<times> nat" where
  "smo_pair L i j Ei st =
     (case st of (m, alphaChanged) \<Rightarrow>
      let Ej = marginOne m (l_data L ! j) - l_labels L ! j;
          ai = alpha m ! i;
          aj = alpha m ! j;
          LH = box_bounds (l_C L) (l_labels L ! i = l_labels L ! j) ai aj
      in if \<bar>fst LH - snd LH\<bar> < 1 / 10000 then (m, alphaChanged)
         else
          let eta = 2 * kernelResult m i j - kernelResult m i i - kernelResult m j j
          in if eta \<ge> 0 then (m, alphaChanged)
             else
              let newaj = clip (aj - l_labels L ! j * (Ei - Ej) / eta) (fst LH) (snd LH)
              in if \<bar>aj - newaj\<bar> < 1 / 10000 then (m, alphaChanged)
                 else
                  let m1 = m\<lparr>alpha := (alpha m)[j := newaj]\<rparr>;
                      newai = ai + l_labels L ! i * l_labels L ! j * (aj - newaj);
                      m2 = m1\<lparr>alpha := (alpha m1)[i := newai]\<rparr>;
                      b1 = b m2 - Ei - l_labels L ! i * (newai - ai) * kernelResult m2 i i
                           - l_labels L ! j * (newaj - aj) * kernelResult m2 i j;
                      b2 = b m2 - Ej - l_labels L ! i * (newai - ai) * kernelResult m2 i j
                           - l_labels L ! j * (newaj - aj) * kernelResult m2 j j
                  in (m2\<lparr>b := new_bias (l_C L) newai newaj b1 b2\<rparr>, Suc alphaChanged))"

text \<open>
  Lines 86-133: the body of the \<^verbatim>\<open>for\<close> loop for one \<open>i\<close>. The state is the object, the
  counter \<^verbatim>\<open>alphaChanged\<close> and the number of random draws. The index drawn is used as
  it is: with draws in \<open>[0, 1)\<close> it lies below \<^verbatim>\<open>this.N\<close>.
\<close>

definition smo_step :: "train_locals \<Rightarrow> (nat \<Rightarrow> real) \<Rightarrow> nat \<Rightarrow> svm \<times> nat \<times> nat \<Rightarrow> (svm \<times> nat \<times> nat) option" where
  "smo_step L rnd i st =
     (case st of (m, alphaChanged, k) \<Rightarrow>
      let Ei = marginOne m (l_data L ! i) - l_labels L ! i
      in if (l_labels L ! i * Ei < - l_tol L \<and> alpha m ! i < l_C L)
            \<or> (l_labels L ! i * Ei > l_tol L \<and> alpha m ! i > 0)
         then (case pick_j rnd (N m) i k of
                 None \<Rightarrow> None
               | Some (j, k') \<Rightarrow>
                  (case smo_pair L i (nat j) Ei (m, alphaChanged) of
                     (m', alphaChanged') \<Rightarrow> Some (m', alphaChanged', k')))
         else Some (m, alphaChanged, k))"

text \<open>A \<^verbatim>\<open>for\<close> loop whose body may fail to return.\<close>

fun for_each :: "('a \<Rightarrow> 's \<Rightarrow> 's option) \<Rightarrow> 'a list \<Rightarrow> 's \<Rightarrow> 's option" where
  "for_each f [] s = Some s"
| "for_each f (x # xs) s = (case f x s of None \<Rightarrow> None | Some s' \<Rightarrow> for_each f xs s')"

text \<open>
  Lines 79-141: the outer loop. The result is the object, \<^verbatim>\<open>iter\<close>, \<^verbatim>\<open>passes\<close> and the
  number of random draws at the exit.
\<close>

function smo_loop :: "train_locals \<Rightarrow> (nat \<Rightarrow> real) \<Rightarrow> svm \<Rightarrow> nat \<Rightarrow> nat \<Rightarrow> nat \<Rightarrow> (svm \<times> nat \<times> nat \<times> nat) option" where
  "smo_loop L rnd m iter passes k =
     (if real passes < l_numpasses L \<and> real iter < l_maxiter L
      then (case for_each (smo_step L rnd) [0..<l_N L] (m, 0, k) of
              None \<Rightarrow> None
            | Some (m', alphaChanged, k') \<Rightarrow>
                smo_loop L rnd m' (Suc iter) (if alphaChanged = 0 then Suc passes else 0) k')
      else Some (m, iter, passes, k))"
  by pat_completeness auto
termination
proof (relation "measure (\<lambda>(L, rnd, m, iter, passes, k). nat \<lceil>l_maxiter L\<rceil> - iter)")
  show "wf (measure (\<lambda>(L, rnd, m, iter, passes, k). nat \<lceil>l_maxiter L\<rceil> - iter))"
    by simp
next
  fix L :: train_locals and rnd :: "nat \<Rightarrow> real" and m :: svm and iter passes k :: nat
    and x2 :: "svm \<times> nat \<times> nat" and x y :: svm and xa ya :: "nat \<times> nat" and xb yb :: nat
  assume "real passes < l_numpasses L \<and> real iter < l_maxiter L"
  then have "real iter < l_maxiter L" by simp
  then have "int iter < \<lceil>l_maxiter L\<rceil>" by linarith
  then have "iter < nat \<lceil>l_maxiter L\<rceil>" by linarith
  then show "((L, rnd, x, Suc iter, if xb = 0 then Suc passes else 0, yb), L, rnd, m, iter, passes, k)
      \<in> measure (\<lambda>(L, rnd, m, iter, passes, k). nat \<lceil>l_maxiter L\<rceil> - iter)"
    by simp
qed

declare smo_loop.simps [simp del]

text \<open>Lines 145-156: the weights of a linear model; the flag is set inside the loop.\<close>

definition compute_weights :: "real list list \<Rightarrow> real list \<Rightarrow> svm \<Rightarrow> svm" where
  "compute_weights dat labs m =
     fold (\<lambda>j m'. m'\<lparr>w := (w m')[j := fold (\<lambda>i s. s + alpha m' ! i * labs ! i * dat ! i ! j)
                                            [0..<N m'] 0],
                     usew := True\<rparr>)
          [0..<D m] (m\<lparr>w := replicate (D m) 0\<rparr>)"

text \<open>Lines 165-181: only the support vectors are kept.\<close>

definition retain_support :: "real \<Rightarrow> svm \<Rightarrow> svm" where
  "retain_support alphatol m =
     (case fold (\<lambda>i (newdata, newlabels, newalpha).
                   if alpha m ! i > alphatol
                   then (newdata @ [data m ! i], newlabels @ [labels m ! i], newalpha @ [alpha m ! i])
                   else (newdata, newlabels, newalpha))
                [0..<N m] ([], [], []) of
        (newdata, newlabels, newalpha) \<Rightarrow>
          m\<lparr>data := newdata, labels := newlabels, alpha := newalpha, N := length newdata\<rparr>)"

record trainstats =
  iters :: nat

text \<open>
  Lines 61-76: the initial state of the optimisation, and the optional cache of kernel
  values. \<open>row0\<close> is \<^verbatim>\<open>data[0]\<close>.
\<close>

definition initialise :: "options \<Rightarrow> (real list \<Rightarrow> real list \<Rightarrow> real) \<Rightarrow> real list list \<Rightarrow> real list \<Rightarrow> svm \<Rightarrow> svm" where
  "initialise opts kern dat row0 m =
     (let n = N m;
          m' = m\<lparr>D := length row0, alpha := zeros n, b := 0, usew := False\<rparr>
      in if opt_memoize opts
         then m'\<lparr>kernelResults :=
                  Some (map (\<lambda>i. map (\<lambda>j. kern (dat ! i) (dat ! j)) [0..<n]) [0..<n])\<rparr>
         else m')"

text \<open>
  \<^verbatim>\<open>train(data, labels, options)\<close> on the object \<open>this\<close>. The outcome is \<open>None\<close> when the
  call does not return; otherwise the statistics returned or the exception thrown,
  together with the object as the call leaves it. \<^verbatim>\<open>data[0].length\<close> throws a
  \<^verbatim>\<open>TypeError\<close> when there is no sample.
\<close>

definition train :: "svm \<Rightarrow> real list list \<Rightarrow> real list \<Rightarrow> options option \<Rightarrow> (nat \<Rightarrow> real) \<Rightarrow> ((error + trainstats) \<times> svm) option" where
  "train this dat labs options rnd =
     (let m0 = this\<lparr>data := dat, labels := labs\<rparr>;
          opts = (case options of None \<Rightarrow> no_options | Some opts \<Rightarrow> opts);
          C = or_default (opt_C opts) 1;
          tol = or_default (opt_tol opts) (1 / 10000);
          alphatol = or_default (opt_alphatol opts) (1 / 10000000);
          maxiter = or_default (opt_maxiter opts) 10000;
          numpasses = or_default (opt_numpasses opts) 10;
          (kern, m1) = select_kernel opts m0;
          m2 = m1\<lparr>kernel := kern, N := length dat\<rparr>
      in case dat of
           [] \<Rightarrow> Some (Inl TypeError, m2)
         | row0 # rest \<Rightarrow>
            (case smo_loop \<lparr>l_data = dat, l_labels = labs, l_C = C, l_tol = tol,
                            l_maxiter = maxiter, l_numpasses = numpasses, l_N = length dat\<rparr>
                    rnd (initialise opts kern dat row0 m2) 0 0 0 of
               None \<Rightarrow> None
             | Some (m5, iter, passes, k) \<Rightarrow>
                 Some (Inr \<lparr>iters = iter\<rparr>,
                       if kernelType m5 = Some ''linear''
                       then compute_weights dat labs m5
                       else retain_support alphatol m5)))"

subsection \<open>Serialization (lines 269-324)\<close>

text \<open>
  The object that \<^verbatim>\<open>toJSON\<close> builds and \<^verbatim>\<open>fromJSON\<close> reads: an absent property is
  \<open>None\<close>, and \<^verbatim>\<open>{}\<close> has none.
\<close>

record json =
  j_N :: "nat option"
  j_D :: "nat option"
  j_b :: "real option"
  j_kernelType :: "string option"
  j_w :: "real list option"
  j_rbfSigma :: "real option"
  j_data :: "real list list option"
  j_labels :: "real list option"
  j_alpha :: "real list option"

definition empty_json :: json where
  "empty_json = \<lparr>j_N = None, j_D = None, j_b = None, j_kernelType = None, j_w = None,
     j_rbfSigma = None, j_data = None, j_labels = None, j_alpha = None\<rparr>"

text \<open>
  \<^verbatim>\<open>toJSON()\<close>: the console lines written, and the outcome of the call. The source has no
  \<^verbatim>\<open>throw\<close>; the custom-kernel guard logs and returns \<^verbatim>\<open>{}\<close>.
\<close>

definition toJSON :: "svm \<Rightarrow> string list \<times> (error + json)" where
  "toJSON m =
     (if kernelType m = Some ''custom''
      then ([''Can't save this SVM because it's using custom, unsupported kernel...''],
            Inr empty_json)
      else
        (let j0 = empty_json\<lparr>j_N := Some (N m), j_D := Some (D m), j_b := Some (b m),
                              j_kernelType := kernelType m\<rparr>;
             j1 = (if kernelType m = Some ''linear'' then j0\<lparr>j_w := Some (w m)\<rparr> else j0);
             j2 = (if kernelType m = Some ''rbf''
                   then j1\<lparr>j_rbfSigma := Some (rbfSigma m), j_data := Some (data m),
                           j_labels := Some (labels m), j_alpha := Some (alpha m)\<rparr>
                   else j1)
         in ([], Inr j2)))"

text \<open>
  A property read from the JSON object; an absent one leaves the placeholder that
  stands for \<^verbatim>\<open>undefined\<close>.
\<close>

definition property :: "'a option \<Rightarrow> 'a \<Rightarrow> 'a" where
  "property v undef = (case v of None \<Rightarrow> undef | Some x \<Rightarrow> x)"

text \<open>\<^verbatim>\<open>fromJSON(json)\<close> on the object \<open>this\<close>: the console lines written and the object.\<close>

definition fromJSON :: "svm \<Rightarrow> json \<Rightarrow> string list \<times> svm" where
  "fromJSON this j =
     (let m1 = this\<lparr>N := property (j_N j) 0, D := property (j_D j) 0, b := property (j_b j) 0,
                    kernelType := j_kernelType j\<rparr>
      in if kernelType m1 = Some ''linear''
         then ([], m1\<lparr>w := property (j_w j) [], usew := True, kernel := linearKernel\<rparr>)
         else if kernelType m1 = Some ''rbf''
         then (let m2 = m1\<lparr>rbfSigma := property (j_rbfSigma j) 0\<rparr>
               in ([], m2\<lparr>kernel := makeRbfKernel (rbfSigma m2), data := property (j_data j) [],
                          labels := property (j_labels j) [], alpha := property (j_alpha j) []\<rparr>))
         else ([''ERROR! unrecognized kernel type.'' @ property (kernelType m1) ''undefined''], m1))"

subsection \<open>Name-server lookup (lines 375-423)\<close>

text \<open>
  The request is sent synchronously (\<^verbatim>\<open>xhr.open("POST", URL, false)\<close>); \<open>xhr\<close> is the state
  of the request when \<^verbatim>\<open>onreadystatechange\<close> fires, \<open>response\<close> the parsed record list.
\<close>

record dns_request =
  req_Action :: string
  req_Domain :: string
  req_Type :: nat

record xhr =
  readyState :: nat
  status :: nat
  response :: "string list"

definition DONE :: nat where
  "DONE = 4"

definition QueryType_NS :: nat where
  "QueryType_NS = 2"

text \<open>\<^verbatim>\<open>DNS._callApi\<close>: the callback runs on the state \<open>s\<close> only for a finished request with status 200.\<close>

definition DNS_callApi :: "(dns_request \<Rightarrow> xhr) \<Rightarrow> dns_request \<Rightarrow> (string list \<Rightarrow> 's \<Rightarrow> 's) \<Rightarrow> 's \<Rightarrow> 's" where
  "DNS_callApi send request callback s =
     (let x = send request
      in if readyState x = DONE \<and> status x = 200 then callback (response x) s else s)"

definition DNS_Query :: "(dns_request \<Rightarrow> xhr) \<Rightarrow> string \<Rightarrow> nat \<Rightarrow> (string list \<Rightarrow> 's \<Rightarrow> 's) \<Rightarrow> 's \<Rightarrow> 's" where
  "DNS_Query send domain type callback s =
     DNS_callApi send \<lparr>req_Action = ''Query'', req_Domain = domain, req_Type = type\<rparr> callback s"

subsection \<open>Strings\<close>

definition is_upper :: "char \<Rightarrow> bool" where
  "is_upper c = (65 \<le> (of_char c :: nat) \<and> (of_char c :: nat) \<le> 90)"

definition is_lower :: "char \<Rightarrow> bool" where
  "is_lower c = (97 \<le> (of_char c :: nat) \<and> (of_char c :: nat) \<le> 122)"

definition is_digit :: "char \<Rightarrow> bool" where
  "is_digit c = (48 \<le> (of_char c :: nat) \<and> (of_char c :: nat) \<le> 57)"

text \<open>The class \<^verbatim>\<open>\w\<close>.\<close>

definition is_word_char :: "char \<Rightarrow> bool" where
  "is_word_char c = (is_upper c \<or> is_lower c \<or> is_digit c \<or> c = CHR ''_'')"

text \<open>An upper-case letter has bit 5 clear; setting it adds 32.\<close>

definition lower_char :: "char \<Rightarrow> char" where
  "lower_char c =
     (if is_upper c
      then (case c of Char b0 b1 b2 b3 b4 b5 b6 b7 \<Rightarrow> Char b0 b1 b2 b3 b4 True b6 b7)
      else c)"

definition toLowerCase :: "string \<Rightarrow> string" where
  "toLowerCase s = map lower_char s"

text \<open>\<^verbatim>\<open>s.includes(t)\<close>: \<open>t\<close> occurs in \<open>s\<close> as a contiguous substring.\<close>

fun str_includes :: "string \<Rightarrow> string \<Rightarrow> bool" where
  "str_includes [] t = (t = [])"
| "str_includes (c # cs) t = (prefix t (c # cs) \<or> str_includes cs t)"

subsection \<open>The prefilter (lines 545-605)\<close>

text \<open>
  \<^verbatim>\<open>url.match(/(?<=\.)\w+/g)\<close>: every maximal run of word characters that directly follows
  a dot, left to right; \<^verbatim>\<open>match\<close> returns \<^verbatim>\<open>null\<close> when there is none.
\<close>

function scan_otherwords :: "string \<Rightarrow> string list" where
  "scan_otherwords [] = []"
| "scan_otherwords (c # cs) =
     (if c = CHR ''.'' \<and> takeWhile is_word_char cs \<noteq> []
      then takeWhile is_word_char cs # scan_otherwords (dropWhile is_word_char cs)
      else scan_otherwords cs)"
  by pat_completeness auto
termination
  by (relation "measure length") (auto simp: less_Suc_eq_le length_dropWhile_le)

definition match_otherwords :: "string \<Rightarrow> string list option" where
  "match_otherwords u = (if scan_otherwords u = [] then None else Some (scan_otherwords u))"

text \<open>\<^verbatim>\<open>url.match(/^\w+/)\<close>.\<close>

definition match_firstword :: "string \<Rightarrow> string option" where
  "match_firstword u =
     (if takeWhile is_word_char u = [] then None else Some (takeWhile is_word_char u))"

text \<open>
  Lines 560-572: the tail inferred from the segments after the first dot. With more than
  one segment it is the longest entry of the TLD dictionary (the first among equally
  long ones) that occurs in the two-segment ending and contains the last segment, or the
  empty string; with one segment it is that segment.
\<close>

definition inferred_tld :: "string list \<Rightarrow> string list \<Rightarrow> string" where
  "inferred_tld dictionary_tlds otherwords =
     (if length otherwords > 1
      then (let endingOfUrl = otherwords ! (length otherwords - 2) @ ''.''
                                @ otherwords ! (length otherwords - 1)
            in fold (\<lambda>item tld.
                       if str_includes endingOfUrl item \<and> length item > length tld
                          \<and> str_includes item (otherwords ! (length otherwords - 1))
                       then item else tld)
                    dictionary_tlds '''')
      else otherwords ! 0)"

text \<open>
  Lines 579-595: \<^verbatim>\<open>tldIsWord\<close> after the loop over the word dictionary. The locals
  \<^verbatim>\<open>firstwordIsWord\<close> and \<^verbatim>\<open>countOtherword\<close> of that loop are never read and are left out.
\<close>

definition tld_is_word :: "string list \<Rightarrow> string \<Rightarrow> bool" where
  "tld_is_word dictionary_words tld =
     fold (\<lambda>item found. if tld = toLowerCase item then True else found) dictionary_words False"

text \<open>
  \<^verbatim>\<open>Prefiltering(url)\<close> with the two global dictionaries as parameters. The result is the
  array \<^verbatim>\<open>[candidate, tld, firstword, otherwords]\<close>; \<^verbatim>\<open>otherwords\<close> is \<open>None\<close> for \<^verbatim>\<open>null\<close>.
  Indexing or taking the length of \<^verbatim>\<open>null\<close> throws a \<^verbatim>\<open>TypeError\<close>.
\<close>

definition Prefiltering :: "string list \<Rightarrow> string list \<Rightarrow> string \<Rightarrow> error + bool \<times> string \<times> string \<times> string list option" where
  "Prefiltering dictionary_tlds dictionary_words url0 =
     (let u = toLowerCase url0;
          otherwords = match_otherwords u
      in case match_firstword u of
           None \<Rightarrow> Inl TypeError
         | Some firstword \<Rightarrow>
            if str_includes u ''/'' \<or> str_includes u ''?'' \<or> str_includes u ''www''
            then Inr (False, '''', firstword, otherwords)
            else (case otherwords of
                    None \<Rightarrow> Inl TypeError
                  | Some ows \<Rightarrow>
                     let tld = inferred_tld dictionary_tlds ows
                     in if tld = ''com'' \<or> tld = ''org'' \<or> str_includes tld ''.''
                        then Inr (False, tld, firstword, Some ows)
                        else if tld_is_word dictionary_words tld
                        then Inr (True, tld, firstword, Some ows)
                        else Inr (False, tld, firstword, Some ows)))"

subsection \<open>The feature extractor (lines 425-453 and 607-819)\<close>

text \<open>
  What \<^verbatim>\<open>calculateFeatures\<close> takes from outside the repository: the regular-expression
  engine applied to a pattern and a text (\<^verbatim>\<open>new RegExp(p).exec(text)\<close> gives the index of the
  first match or \<^verbatim>\<open>null\<close>; \<^verbatim>\<open>[...text.matchAll(new RegExp(p, 'g'))]\<close> gives the matches, each
  the array of the whole match and its groups, \<open>None\<close> for an undefined group; an invalid
  pattern throws), the built-in \<^verbatim>\<open>isNaN\<close> on strings, and the answer of the DNS service.
\<close>

record environment =
  RegExp_exec :: "string \<Rightarrow> string \<Rightarrow> error + nat option"
  matchAll :: "string \<Rightarrow> string \<Rightarrow> error + string option list list"
  isNaN :: "string \<Rightarrow> bool"
  send :: "dns_request \<Rightarrow> xhr"

text \<open>
  \<^verbatim>\<open>URLElement\<close>, with \<open>end_flag\<close>, \<open>zip_flag\<close> and \<open>string_flag\<close> for the properties
  \<^verbatim>\<open>end\<close>, \<^verbatim>\<open>zip\<close> and \<^verbatim>\<open>string\<close>; and \<^verbatim>\<open>TextofURL\<close>.
\<close>

record url_element =
  url :: string
  beginning :: real
  middle :: real
  end_flag :: real
  repetition :: real
  preposition :: real
  ns :: real
  net :: real
  co :: real
  gov :: real
  it :: real
  my :: real
  no :: real
  so :: real
  you :: real
  to :: real
  zip_flag :: real
  string_flag :: real

record textofurl =
  tu_url :: string
  tu_text :: string

text \<open>\<^verbatim>\<open>str.match(/[a-z][A-Z]/g) != null\<close> and \<^verbatim>\<open>str.match(/[a-z]\.[A-Z]/g) != null\<close>.\<close>

fun has_camel :: "string \<Rightarrow> bool" where
  "has_camel (c # d # cs) = (is_lower c \<and> is_upper d \<or> has_camel (d # cs))"
| "has_camel cs = False"

fun has_dot_capital :: "string \<Rightarrow> bool" where
  "has_dot_capital (c # d # e # cs) =
     (is_lower c \<and> d = CHR ''.'' \<and> is_upper e \<or> has_dot_capital (d # e # cs))"
| "has_dot_capital cs = False"

text \<open>
  Lines 646-656: the loop over the matches of \<^verbatim>\<open>'([^ \r\n]+) ' + urls[i]\<close>, which stops at the
  first cue word. \<^verbatim>\<open>match[1].toLowerCase()\<close> throws on an undefined group.
\<close>

fun preposition_loop :: "string option list list \<Rightarrow> real \<Rightarrow> error + real" where
  "preposition_loop [] p = Inr p"
| "preposition_loop (mt # rest) p =
     (case (if 1 < length mt then mt ! 1 else None) of
        None \<Rightarrow> Inl TypeError
      | Some g \<Rightarrow>
         (let previous_word = toLowerCase g
          in if previous_word = ''on'' \<or> previous_word = ''via'' \<or> previous_word = ''to''
                \<or> previous_word = ''at'' \<or> str_includes previous_word ''website''
                \<or> str_includes previous_word '':'' \<or> str_includes previous_word ''visit''
             then Inr 0
             else preposition_loop rest 1))"

text \<open>
  Lines 797-807: \<^verbatim>\<open>containsDash\<close>. The \<^verbatim>\<open>return true\<close> of the inner callback returns from the
  callback only; after the \<^verbatim>\<open>forEach\<close> the function ends without a value, which is falsy.
\<close>

definition containsDash :: "string \<Rightarrow> string list \<Rightarrow> bool" where
  "containsDash firstword otherwords =
     (if str_includes firstword ''-'' then True
      else (let discarded = map (\<lambda>item. str_includes item ''-'') otherwords in False))"

text \<open>
  Lines 721-728: \<^verbatim>\<open>count\<close>, the number of remaining segments shorter than two characters,
  counted only when the first segment is shorter than two characters.
\<close>

definition short_count :: "string \<Rightarrow> string list \<Rightarrow> int" where
  "short_count firstword otherwords =
     (if length firstword < 2
      then fold (\<lambda>item c. if length item < 2 then c + 1 else c) otherwords 0
      else 0)"

text \<open>Lines 730-794: the value of \<^verbatim>\<open>url_element.string\<close>; \<open>u\<close> is \<^verbatim>\<open>urls[i]\<close>.\<close>

definition string_likeness :: "environment \<Rightarrow> string list \<Rightarrow> string \<Rightarrow> string list \<Rightarrow> string \<Rightarrow> real" where
  "string_likeness env dictionary_words firstword otherwords u =
     (let count = short_count firstword otherwords;
          firstwordIsWord = fold (\<lambda>item found. if firstword = toLowerCase item then True else found)
                                 dictionary_words False;
          countOtherword = fold (\<lambda>item c. fold (\<lambda>k c'. if otherwords ! k = toLowerCase item
                                                         then c' + 1 else c')
                                                [0..<length otherwords - 1] c)
                                dictionary_words (0::int);
          otherwordsAreWords = (countOtherword = int (length otherwords) - 1);
          firstwordisNumber = (\<not> isNaN env firstword);
          otherwordsAreNumbers = fold (\<lambda>item a. if isNaN env item then False else a) otherwords True;
          firstwordCamelCase = has_camel firstword;
          otherwordsCamelCase = fold (\<lambda>item a. if has_camel item then True else a) otherwords False;
          urlDotCapital = has_dot_capital u
      in if count = int (length otherwords) - 1 then 1
         else if containsDash firstword otherwords then 0
         else if (firstwordIsWord = False \<and> firstwordisNumber = False)
                 \<or> (otherwordsAreWords = False \<and> otherwordsAreWords = False) then 0
         else if firstwordisNumber \<and> length otherwords = 1 then 1
         else if firstwordisNumber \<and> otherwordsAreNumbers then 1
         else if firstwordisNumber \<and> otherwordsAreWords \<and> otherwordsCamelCase = False then 1
         else if firstwordIsWord \<and> firstwordCamelCase = False \<and> length otherwords = 1
                 \<and> urlDotCapital then 1
         else if otherwordsAreWords \<and> otherwordsCamelCase = False \<and> firstwordisNumber then 1
         else if otherwordsAreWords \<and> otherwordsCamelCase = False \<and> firstwordIsWord
                 \<and> firstwordCamelCase = False then 1
         else 0)"

text \<open>
  Lines 616-629: the position flags, in the order \<^verbatim>\<open>end\<close>, \<^verbatim>\<open>beginning\<close>, \<^verbatim>\<open>middle\<close>.
  The subtraction is one of JavaScript numbers and may be negative.
\<close>

definition position_flags :: "nat \<Rightarrow> nat \<Rightarrow> nat \<Rightarrow> real \<times> real \<times> real" where
  "position_flags startof_url text_length url_length =
     (if int startof_url = int text_length - int url_length then (1, 0, 0)
      else if startof_url = 0 then (0, 1, 0)
      else (0, 0, 1))"

text \<open>
  The element as \<^verbatim>\<open>calculateFeatures\<close> has filled it before the lookup: the position flags,
  the repetition and preposition flags, the ten flags of lines 659-718 and the string
  flag. \<^verbatim>\<open>ns\<close> is still undefined; the callback of the lookup sets it.
\<close>

definition filled_element :: "string \<Rightarrow> real \<times> real \<times> real \<Rightarrow> real \<Rightarrow> real \<Rightarrow> string \<Rightarrow> real \<Rightarrow> url_element" where
  "filled_element u flags rep prep tld str =
     \<lparr>url = u,
      beginning = fst (snd flags),
      middle = snd (snd flags),
      end_flag = fst flags,
      repetition = rep,
      preposition = prep,
      ns = 0,
      net = (if tld = ''net'' then 1 else 0),
      co = (if tld = ''co'' then 1 else 0),
      gov = (if tld = ''gov'' then 1 else 0),
      it = (if tld = ''it'' then 1 else 0),
      my = (if tld = ''my'' then 1 else 0),
      no = (if tld = ''no'' then 1 else 0),
      so = (if tld = ''so'' then 1 else 0),
      you = (if tld = ''you'' then 1 else 0),
      to = (if tld = ''to'' then 1 else 0),
      zip_flag = (if tld = ''zip'' then 1 else 0),
      string_flag = str\<rparr>"

text \<open>
  \<^verbatim>\<open>calculateFeatures\<close>: the outcome is the exception thrown or the array
  \<^verbatim>\<open>url_elements_arr\<close> after the call. The element is pushed by the callback of the lookup,
  which also sets \<^verbatim>\<open>ns\<close>. Reading a property of \<^verbatim>\<open>undefined\<close> or \<^verbatim>\<open>null\<close> throws a
  \<^verbatim>\<open>TypeError\<close>.
\<close>

definition calculateFeatures :: "environment \<Rightarrow> string list \<Rightarrow> string \<Rightarrow> string list option \<Rightarrow> nat \<Rightarrow> string list \<Rightarrow> string \<Rightarrow> url_element list \<Rightarrow> textofurl list \<Rightarrow> error + url_element list" where
  "calculateFeatures env dictionary_words firstword otherwords i urls tld url_elements_arr
       textofurl_elements_arr =
     (if length textofurl_elements_arr \<le> i \<or> length urls \<le> i then Inl TypeError
      else
       let s = urls ! i;
           text = tu_text (textofurl_elements_arr ! i);
           url_length = length (urls ! i)
       in case RegExp_exec env s text of
            Inl e \<Rightarrow> Inl e
          | Inr None \<Rightarrow> Inl TypeError
          | Inr (Some startof_url) \<Rightarrow>
             (let text_length = length text;
                  flags = position_flags startof_url text_length url_length
              in case matchAll env s text of
                   Inl e \<Rightarrow> Inl e
                 | Inr matches \<Rightarrow>
                    (let rep = (if length matches > 1 then 1 else 0)
                     in case matchAll env (''([^ '' @ [CHR 0x0D, CHR 0x0A] @ '']+) '' @ urls ! i) text of
                          Inl e \<Rightarrow> Inl e
                        | Inr matches' \<Rightarrow>
                           (case (if length matches' = 0 then Inr 1
                                  else preposition_loop matches' 0) of
                              Inl e \<Rightarrow> Inl e
                            | Inr prep \<Rightarrow>
                               (case otherwords of
                                  None \<Rightarrow> Inl TypeError
                                | Some ows \<Rightarrow>
                                   (let url_element =
                                          filled_element (urls ! i) flags rep prep tld
                                            (string_likeness env dictionary_words firstword ows
                                               (urls ! i))
                                    in Inr (DNS_Query (send env) (urls ! i) QueryType_NS
                                              (\<lambda>dat arr. arr @ [url_element\<lparr>ns := (if length dat = 0
                                                                                    then 1 else 0)\<rparr>])
                                              url_elements_arr)))))))"

subsection \<open>The detection pass (lines 855-910)\<close>


text \<open>Lines 876-896: the vector handed to the classifier for one element.\<close>

definition format_element :: "url_element \<Rightarrow> real list" where
  "format_element item =
     [ns item, preposition item, string_flag item, repetition item, beginning item,
      end_flag item, middle item, net item, co item, gov item, it item, my item, no item,
      so item, you item, to item, zip_flag item]"

text \<open>Lines 905-917: the elements that the loaded model labels 1.\<close>

definition predictTypos :: "json \<Rightarrow> url_element list \<Rightarrow> url_element list" where
  "predictTypos j url_elements_arr =
     (let mysvm = snd (fromJSON new_SVM j);
          predictions = predict mysvm (map format_element url_elements_arr)
      in map (\<lambda>i. url_elements_arr ! i)
             (filter (\<lambda>i. predictions ! i = 1) [0..<length predictions]))"

subsection \<open>Example inputs\<close>

text \<open>
  Concrete runs used to exercise the theorems: two separable points trained with the
  default options, two equal points trained with an RBF or a caller-supplied kernel, the
  sequence of random draws that alternates between 1/2 and 0, and the objects these
  runs produce.
\<close>

definition example_linear_model :: svm where
  "example_linear_model =
     \<lparr>data = [[1], [- 1]], labels = [1, - 1], kernelType = Some ''linear'', rbfSigma = 0,
      kernel = linearKernel, N = 2, D = 1, alpha = [1 / 2, 1 / 2], b = 0, usew = True, w = [1],
      kernelResults = None\<rparr>"

definition alternating :: "nat \<Rightarrow> real" where
  "alternating k = (if even k then 1 / 2 else 0)"



definition example_custom_model :: svm where
  "example_custom_model =
     \<lparr>data = [], labels = [], kernelType = Some ''custom'', rbfSigma = 0,
      kernel = linearKernel, N = 0, D = 1, alpha = [], b = 0, usew = False, w = [],
      kernelResults = None\<rparr>"

definition example_linear_json :: json where
  "example_linear_json = empty_json\<lparr>j_N := Some 2, j_D := Some 1, j_b := Some 0,
     j_kernelType := Some ''linear'', j_w := Some [1]\<rparr>"

text \<open>
  One detection pass over the text "good for you.you": the regular-expression engine
  finds the token at index 9, once, preceded by the word "for"; \<^verbatim>\<open>isNaN\<close> holds of every
  segment; the DNS service answers with the HTTP status \<open>st\<close> and no record.
\<close>

definition example_environment :: "nat \<Rightarrow> environment" where
  "example_environment st =
     \<lparr>RegExp_exec = (\<lambda>p t. Inr (Some 9)),
      matchAll = (\<lambda>p t. if p = ''you.you'' then Inr [[Some ''you.you'']]
                        else Inr [[Some ''for you.you'', Some ''for'']]),
      isNaN = (\<lambda>s. True),
      send = (\<lambda>request. \<lparr>readyState = 4, status = st, response = []\<rparr>)\<rparr>"

definition example_texts :: "textofurl list" where
  "example_texts = [\<lparr>tu_url = ''you.you'', tu_text = ''good for you.you''\<rparr>]"

definition example_element :: url_element where
  "example_element =
     \<lparr>url = ''you.you'', beginning = 0, middle = 0, end_flag = 1, repetition = 0,
      preposition = 1, ns = 1, net = 0, co = 0, gov = 0, it = 0, my = 0, no = 0, so = 0,
      you = 1, to = 0, zip_flag = 0, string_flag = 1\<rparr>"

subsection \<open>The flags of a feature vector\<close>

text \<open>
  Exactly one of the position flags is 1 and the other two are 0; and the ten flags of
  the tail, in the order of the vector handed to the classifier.
\<close>

definition one_position :: "url_element \<Rightarrow> bool" where
  "one_position e =
     ((beginning e = 1 \<and> middle e = 0 \<and> end_flag e = 0)
      \<or> (beginning e = 0 \<and> middle e = 1 \<and> end_flag e = 0)
      \<or> (beginning e = 0 \<and> middle e = 0 \<and> end_flag e = 1))"

definition tld_flags :: "url_element \<Rightarrow> real list" where
  "tld_flags e = [net e, co e, gov e, it e, my e, no e, so e, you e, to e, zip_flag e]"

subsection \<open>Random sources\<close>

text \<open>
  A sequence of draws is fair for \<open>n\<close> indices when, from every position on and for every
  index below \<open>n\<close>, some later draw gives another index: the rejection loop of line 92
  then ends.
\<close>

definition fair :: "(nat \<Rightarrow> real) \<Rightarrow> nat \<Rightarrow> bool" where
  "fair rnd n = (\<forall>i<n. \<forall>k. \<exists>d. randi (rnd (k + d)) 0 (real n) \<noteq> int i)"

section \<open>Properties\<close>

subsection \<open>The frame of the optimisation: only \<open>alpha\<close> and \<open>b\<close> change\<close>

lemma fold_add_sum:
  fixes g :: "nat \<Rightarrow> real"
  shows "fold (\<lambda>j f. f + g j) [0..<n] a = a + (\<Sum>j<n. g j)"
  by (induction n) simp_all

lemma marginOne_usew:
  "usew m \<Longrightarrow> marginOne m x = b m + (\<Sum>j<D m. x ! j * w m ! j)"
  by (simp add: marginOne_def fold_add_sum)

lemma smo_pair_frame:
  assumes "smo_pair L i j Ei (m, c) = (m', c')"
  shows "m' = m\<lparr>alpha := alpha m', b := b m'\<rparr>"
  using assms
  by (auto simp: smo_pair_def Let_def split: if_splits)

lemma smo_step_frame:
  assumes "smo_step L rnd i (m, c, k) = Some (m', c', k')"
  shows "m' = m\<lparr>alpha := alpha m', b := b m'\<rparr>"
  using assms
  by (auto simp: smo_step_def Let_def split: if_splits option.splits prod.splits dest: smo_pair_frame)

lemma frame_trans:
  fixes m :: svm
  assumes "m1 = m\<lparr>alpha := a1, b := b1\<rparr>" and "m2 = m1\<lparr>alpha := a2, b := b2\<rparr>"
  shows "m2 = m\<lparr>alpha := a2, b := b2\<rparr>"
  using assms by simp

lemma for_each_frame:
  assumes "for_each (smo_step L rnd) is (m, c, k) = Some (m', c', k')"
  shows "m' = m\<lparr>alpha := alpha m', b := b m'\<rparr>"
  using assms
proof (induction "is" arbitrary: m c k)
  case Nil
  then show ?case by simp
next
  case (Cons i "is")
  from Cons.prems obtain m1 c1 k1 where
    s: "smo_step L rnd i (m, c, k) = Some (m1, c1, k1)" and
    r: "for_each (smo_step L rnd) is (m1, c1, k1) = Some (m', c', k')"
    by (auto split: option.splits)
  have "m1 = m\<lparr>alpha := alpha m1, b := b m1\<rparr>" using s by (rule smo_step_frame)
  moreover have "m' = m1\<lparr>alpha := alpha m', b := b m'\<rparr>" using r by (rule Cons.IH)
  ultimately show ?case by (rule frame_trans)
qed

lemma smo_loop_frame:
  "smo_loop L rnd m iter passes k = Some (m', iter', passes', k') \<Longrightarrow>
   m' = m\<lparr>alpha := alpha m', b := b m'\<rparr>"
proof (induction L rnd m iter passes k rule: smo_loop.induct)
  case (1 L rnd m iter passes k)
  show ?case
  proof (cases "real passes < l_numpasses L \<and> real iter < l_maxiter L")
    case True
    with "1.prems" obtain m1 c1 k1 where
      f: "for_each (smo_step L rnd) [0..<l_N L] (m, 0, k) = Some (m1, c1, k1)" and
      r: "smo_loop L rnd m1 (Suc iter) (if c1 = 0 then Suc passes else 0) k1
            = Some (m', iter', passes', k')"
      by (subst (asm) smo_loop.simps) (auto split: option.splits)
    have "m1 = m\<lparr>alpha := alpha m1, b := b m1\<rparr>"
      using f by (rule for_each_frame)
    moreover have "m' = m1\<lparr>alpha := alpha m', b := b m'\<rparr>"
      using "1.IH" [OF True f refl refl r] .
    ultimately show ?thesis by (rule frame_trans)
  next
    case False
    with "1.prems" show ?thesis
      by (subst (asm) smo_loop.simps) auto
  qed
qed

lemma weights_fold:
  "fold (\<lambda>j m'. m'\<lparr>w := (w m')[j := g j m'], usew := True\<rparr>) js m0
     = m0\<lparr>w := w (fold (\<lambda>j m'. m'\<lparr>w := (w m')[j := g j m'], usew := True\<rparr>) js m0),
          usew := (usew m0 \<or> js \<noteq> [])\<rparr>"
proof (induction js arbitrary: m0)
  case Nil
  show ?case by simp
next
  case (Cons j js)
  show ?case
    by (simp only: fold_Cons_rev fold.simps o_apply) (subst Cons.IH, simp)
qed

lemma compute_weights_frame:
  "compute_weights dat labs m
     = m\<lparr>w := w (compute_weights dat labs m), usew := (usew m \<or> 0 < D m)\<rparr>"
  unfolding compute_weights_def
  by (subst weights_fold) simp

lemma retain_support_frame:
  "retain_support alphatol m
     = m\<lparr>data := data (retain_support alphatol m), labels := labels (retain_support alphatol m),
         alpha := alpha (retain_support alphatol m), N := N (retain_support alphatol m)\<rparr>"
  by (simp add: retain_support_def split: prod.splits)

lemma select_kernel_cases:
  assumes "select_kernel opts m0 = (kern, m1)"
  shows "m1 = m0\<lparr>kernelType := kernelType m1, rbfSigma := rbfSigma m1\<rparr>"
    and "(kernelType m1 = Some ''linear'' \<and> kern = linearKernel)
       \<or> (kernelType m1 = Some ''rbf'' \<and> kern = makeRbfKernel (rbfSigma m1)
           \<and> rbfSigma m1 = or_default (opt_rbfsigma opts) (1 / 2)
           \<and> opt_kernel opts = Some (KernelName ''rbf''))
       \<or> (kernelType m1 = Some ''custom'' \<and> opt_kernel opts = Some (KernelFunction kern))"
    and "opt_kernel opts = Some (KernelName ''rbf'') \<Longrightarrow> kernelType m1 = Some ''rbf''"
    and "opt_kernel opts = Some (KernelFunction f) \<Longrightarrow> kernelType m1 = Some ''custom''"
  using assms
  by (auto simp: select_kernel_def Let_def split: option.splits kernel_option.splits if_splits)

lemma frame_fields:
  fixes m :: svm
  assumes "m' = m\<lparr>alpha := a, b := bb\<rparr>"
  shows "kernelType m' = kernelType m" "kernel m' = kernel m" "usew m' = usew m"
    "D m' = D m" "rbfSigma m' = rbfSigma m" "N m' = N m" "data m' = data m"
    "labels m' = labels m" "w m' = w m" "kernelResults m' = kernelResults m"
  using assms by simp_all

lemma pick_j_single_aux:
  assumes "pick_j rnd n i k = Some y"
  shows "\<not> (n = 1 \<and> i = 0 \<and> (\<forall>k. 0 \<le> rnd k \<and> rnd k < 1))"
proof (rule pick_j.raw_induct
    [where P = "\<lambda>rnd n i k y. \<not> (n = 1 \<and> i = 0 \<and> (\<forall>k. 0 \<le> rnd k \<and> rnd k < 1))", OF _ assms])
  fix pick :: "(nat \<Rightarrow> real) \<Rightarrow> nat \<Rightarrow> nat \<Rightarrow> nat \<Rightarrow> (int \<times> nat) option"
    and rnd n i k y
  assume IH: "\<And>rnd n i k y. pick rnd n i k = Some y \<Longrightarrow>
      \<not> (n = 1 \<and> i = 0 \<and> (\<forall>k. 0 \<le> rnd k \<and> rnd k < 1))"
    and eq: "(if randi (rnd k) 0 (real n) = int i then pick rnd n i (Suc k)
              else Some (randi (rnd k) 0 (real n), Suc k)) = Some y"
  show "\<not> (n = 1 \<and> i = 0 \<and> (\<forall>k. 0 \<le> rnd k \<and> rnd k < 1))"
  proof
    assume a: "n = 1 \<and> i = 0 \<and> (\<forall>k. 0 \<le> rnd k \<and> rnd k < 1)"
    then have "0 \<le> rnd k" "rnd k < 1" by simp_all
    then have "randi (rnd k) 0 (real n) = int i"
      using a by (simp add: randi_def floor_eq_iff)
    with eq have "pick rnd n i (Suc k) = Some y" by simp
    from IH [OF this] a show False by simp
  qed
qed

lemma pick_j_single:
  assumes "\<forall>k. 0 \<le> rnd k \<and> rnd k < 1"
  shows "pick_j rnd 1 0 k = None"
proof (cases "pick_j rnd 1 0 k")
  case None
  then show ?thesis .
next
  case (Some y)
  from pick_j_single_aux [OF this] assms show ?thesis by simp
qed

lemma marginOne_zero_alpha:
  assumes "\<not> usew m" and "\<forall>i<N m. alpha m ! i = 0"
  shows "marginOne m x = b m"
proof -
  have "fold (\<lambda>i f. f + alpha m ! i * labels m ! i * kernel m x (data m ! i)) [0..<n] (b m) = b m"
    if "n \<le> N m" for n
    using that assms(2) by (induction n) simp_all
  then show ?thesis using assms(1) by (simp add: marginOne_def)
qed


lemma weights_fields:
  fixes m :: svm
  assumes "m' = m\<lparr>w := ww, usew := u\<rparr>"
  shows "kernelType m' = kernelType m" "rbfSigma m' = rbfSigma m" "kernel m' = kernel m"
    "D m' = D m" "b m' = b m" "usew m' = u"
  using assms by simp_all

lemma support_fields:
  fixes m :: svm
  assumes "m' = m\<lparr>data := d, labels := l, alpha := a, N := n\<rparr>"
  shows "kernelType m' = kernelType m" "rbfSigma m' = rbfSigma m" "kernel m' = kernel m"
    "D m' = D m" "b m' = b m" "usew m' = usew m"
  using assms by simp_all

lemma train_result:
  assumes "train this dat labs options rnd = Some (r, m)"
  shows "r = Inl TypeError \<or> (\<exists>st. r = Inr st)"
    and "(r = Inl TypeError) = (dat = [])"
    and "kernelType m = Some ''linear'' \<Longrightarrow> kernel m = linearKernel"
    and "kernelType m = Some ''linear'' \<Longrightarrow> dat \<noteq> [] \<Longrightarrow> usew m = (0 < D m)"
    and "kernelType m = Some ''rbf'' \<Longrightarrow> kernel m = makeRbfKernel (rbfSigma m)"
    and "kernelType m = Some ''rbf'' \<Longrightarrow> dat \<noteq> [] \<Longrightarrow> \<not> usew m"
    and "opt_kernel (case options of None \<Rightarrow> no_options | Some opts \<Rightarrow> opts) = Some (KernelName ''rbf'')
         \<Longrightarrow> kernelType m = Some ''rbf''
             \<and> rbfSigma m = or_default (opt_rbfsigma (case options of None \<Rightarrow> no_options | Some opts \<Rightarrow> opts)) (1 / 2)"
    and "opt_kernel (case options of None \<Rightarrow> no_options | Some opts \<Rightarrow> opts) = Some (KernelFunction f)
         \<Longrightarrow> kernelType m = Some ''custom''"
proof -
  define opts where "opts = (case options of None \<Rightarrow> no_options | Some opts \<Rightarrow> opts)"
  obtain kern m1 where sk: "select_kernel opts (this\<lparr>data := dat, labels := labs\<rparr>) = (kern, m1)"
    by (cases "select_kernel opts (this\<lparr>data := dat, labels := labs\<rparr>)")
  note k = select_kernel_cases [OF sk]
  have goal: "(r = Inl TypeError \<or> (\<exists>st. r = Inr st)) \<and> (r = Inl TypeError) = (dat = [])
      \<and> kernelType m = kernelType m1 \<and> rbfSigma m = rbfSigma m1 \<and> kernel m = kern
      \<and> (dat \<noteq> [] \<longrightarrow> usew m = (kernelType m = Some ''linear'' \<and> 0 < D m))"
  proof (cases dat)
    case Nil
    with assms sk show ?thesis
      by (auto simp: train_def Let_def opts_def [symmetric])
  next
    case (Cons row0 rest)
    define m4 where "m4 = initialise opts kern dat row0 (m1\<lparr>kernel := kern, N := length dat\<rparr>)"
    define L where "L = \<lparr>l_data = dat, l_labels = labs, l_C = or_default (opt_C opts) 1,
        l_tol = or_default (opt_tol opts) (1 / 10000),
        l_maxiter = or_default (opt_maxiter opts) 10000,
        l_numpasses = or_default (opt_numpasses opts) 10, l_N = length dat\<rparr>"
    define alphatol where "alphatol = or_default (opt_alphatol opts) (1 / 10000000)"
    have m4: "kernelType m4 = kernelType m1" "rbfSigma m4 = rbfSigma m1" "kernel m4 = kern"
      "usew m4 = False"
      by (simp_all add: m4_def initialise_def Let_def)
    have "train this dat labs options rnd =
        (case smo_loop L rnd m4 0 0 0 of
           None \<Rightarrow> None
         | Some (m5, iter, passes, k) \<Rightarrow>
             Some (Inr \<lparr>iters = iter\<rparr>,
                   if kernelType m5 = Some ''linear'' then compute_weights dat labs m5
                   else retain_support alphatol m5))"
      unfolding train_def Let_def opts_def [symmetric] sk prod.case m4_def L_def alphatol_def
      by (subst (1) Cons) (simp only: list.case)
    with assms obtain m5 iter passes k where
      lp: "smo_loop L rnd m4 0 0 0 = Some (m5, iter, passes, k)" and
      r: "r = Inr \<lparr>iters = iter\<rparr>" and
      m: "m = (if kernelType m5 = Some ''linear'' then compute_weights dat labs m5
               else retain_support alphatol m5)"
      by (cases "smo_loop L rnd m4 0 0 0") auto
    note f = frame_fields [OF smo_loop_frame [OF lp]]
    show ?thesis
    proof (cases "kernelType m5 = Some ''linear''")
      case True
      then have "m = compute_weights dat labs m5" using m by simp
      then have "m = m5\<lparr>w := w m, usew := (usew m5 \<or> 0 < D m5)\<rparr>"
        using compute_weights_frame [of dat labs m5] by simp
      note g = weights_fields [OF this]
      from True f m4 r Cons g show ?thesis by simp
    next
      case False
      then have "m = retain_support alphatol m5" using m by simp
      then have "m = m5\<lparr>data := data m, labels := labels m, alpha := alpha m, N := N m\<rparr>"
        using retain_support_frame [of alphatol m5] by simp
      note g = support_fields [OF this]
      from False f m4 r Cons g show ?thesis by simp
    qed
  qed
  from goal show "r = Inl TypeError \<or> (\<exists>st. r = Inr st)" by blast
  from goal show "(r = Inl TypeError) = (dat = [])" by blast
  from goal k show "kernelType m = Some ''linear'' \<Longrightarrow> kernel m = linearKernel" by auto
  from goal show "kernelType m = Some ''linear'' \<Longrightarrow> dat \<noteq> [] \<Longrightarrow> usew m = (0 < D m)" by simp
  from goal k show "kernelType m = Some ''rbf'' \<Longrightarrow> kernel m = makeRbfKernel (rbfSigma m)" by auto
  from goal show "kernelType m = Some ''rbf'' \<Longrightarrow> dat \<noteq> [] \<Longrightarrow> \<not> usew m" by simp
  from goal k show "opt_kernel (case options of None \<Rightarrow> no_options | Some opts \<Rightarrow> opts) = Some (KernelName ''rbf'')
         \<Longrightarrow> kernelType m = Some ''rbf''
             \<and> rbfSigma m = or_default (opt_rbfsigma (case options of None \<Rightarrow> no_options | Some opts \<Rightarrow> opts)) (1 / 2)"
    by (auto simp: opts_def)
  from goal k show "opt_kernel (case options of None \<Rightarrow> no_options | Some opts \<Rightarrow> opts) = Some (KernelFunction f)
         \<Longrightarrow> kernelType m = Some ''custom''"
    by (auto simp: opts_def)
qed

subsection \<open>Training returns when the random source is fair\<close>

text \<open>
  With a fair random source every choice of \<open>j\<close> ends, each pass over the samples ends,
  and the outer loop ends because \<^verbatim>\<open>iter\<close> grows towards \<^verbatim>\<open>maxiter\<close>; it is left only when
  its condition \<^verbatim>\<open>passes < numpasses && iter < maxiter\<close> fails. So \<^verbatim>\<open>train\<close> returns its
  statistics on every non-empty training set.
\<close>

lemma pick_j_returns_aux:
  "randi (rnd (k + d)) 0 (real n) \<noteq> int i \<Longrightarrow> \<exists>r. pick_j rnd n i k = Some r"
proof (induction d arbitrary: k)
  case 0
  then show ?case by (subst pick_j.simps) simp
next
  case (Suc d)
  show ?case
  proof (cases "randi (rnd k) 0 (real n) = int i")
    case True
    from Suc.prems have "randi (rnd (Suc k + d)) 0 (real n) \<noteq> int i" by simp
    from Suc.IH [OF this] obtain r where "pick_j rnd n i (Suc k) = Some r" ..
    with True show ?thesis by (subst pick_j.simps) simp
  next
    case False
    then show ?thesis by (subst pick_j.simps) simp
  qed
qed

lemma pick_j_returns:
  assumes "fair rnd n" and "i < n"
  shows "\<exists>r. pick_j rnd n i k = Some r"
proof -
  from assms obtain d where "randi (rnd (k + d)) 0 (real n) \<noteq> int i"
    unfolding fair_def by blast
  then show ?thesis by (rule pick_j_returns_aux)
qed

lemma smo_step_returns:
  assumes "fair rnd (N m)" and "i < N m"
  shows "\<exists>m' c' k'. smo_step L rnd i (m, c, k) = Some (m', c', k')"
proof -
  from pick_j_returns [OF assms] obtain j k' where "pick_j rnd (N m) i k = Some (j, k')"
    by (metis prod.exhaust)
  then show ?thesis
    by (cases "smo_pair L i (nat j) (marginOne m (l_data L ! i) - l_labels L ! i) (m, c)")
       (simp add: smo_step_def Let_def)
qed

lemma for_each_returns:
  assumes "fair rnd (N m)" and "\<forall>i\<in>set is. i < N m"
  shows "\<exists>m' c' k'. for_each (smo_step L rnd) is (m, c, k) = Some (m', c', k')"
  using assms
proof (induction "is" arbitrary: m c k)
  case Nil
  then show ?case by simp
next
  case (Cons i "is")
  from smo_step_returns [OF Cons.prems(1), of i L c k] Cons.prems(2)
  obtain m1 c1 k1 where s: "smo_step L rnd i (m, c, k) = Some (m1, c1, k1)"
    by auto
  from frame_fields(6) [OF smo_step_frame [OF s]] have "N m1 = N m" .
  with Cons.prems have "fair rnd (N m1)" "\<forall>i\<in>set is. i < N m1" by simp_all
  from Cons.IH [OF this] s show ?case by simp
qed

lemma smo_loop_returns:
  assumes "fair rnd (N m)" and "l_N L = N m"
  shows "\<exists>m' iter' passes' k'. smo_loop L rnd m iter passes k = Some (m', iter', passes', k')"
  using assms
proof (induction L rnd m iter passes k rule: smo_loop.induct)
  case (1 L rnd m iter passes k)
  show ?case
  proof (cases "real passes < l_numpasses L \<and> real iter < l_maxiter L")
    case True
    from for_each_returns [OF "1.prems"(1), of "[0..<l_N L]" L 0 k] "1.prems"(2)
    obtain m1 c1 k1 where
      f: "for_each (smo_step L rnd) [0..<l_N L] (m, 0, k) = Some (m1, c1, k1)"
      by auto
    from frame_fields(6) [OF for_each_frame [OF f]] have "N m1 = N m" .
    with "1.prems" have "fair rnd (N m1)" "l_N L = N m1" by simp_all
    from "1.IH" [OF True f refl refl this] True f show ?thesis
      by (subst smo_loop.simps) simp
  next
    case False
    then show ?thesis by (subst smo_loop.simps) auto
  qed
qed

lemma smo_loop_exit:
  "smo_loop L rnd m iter passes k = Some (m', iter', passes', k') \<Longrightarrow>
   \<not> (real passes' < l_numpasses L \<and> real iter' < l_maxiter L) \<and> iter \<le> iter'"
proof (induction L rnd m iter passes k rule: smo_loop.induct)
  case (1 L rnd m iter passes k)
  show ?case
  proof (cases "real passes < l_numpasses L \<and> real iter < l_maxiter L")
    case True
    with "1.prems" obtain m1 c1 k1 where
      f: "for_each (smo_step L rnd) [0..<l_N L] (m, 0, k) = Some (m1, c1, k1)" and
      r: "smo_loop L rnd m1 (Suc iter) (if c1 = 0 then Suc passes else 0) k1
            = Some (m', iter', passes', k')"
      by (subst (asm) smo_loop.simps) (auto split: option.splits)
    from "1.IH" [OF True f refl refl r] show ?thesis by simp
  next
    case False
    with "1.prems" show ?thesis
      by (subst (asm) smo_loop.simps) auto
  qed
qed

lemma train_returns:
  assumes "dat \<noteq> []" and "fair rnd (length dat)"
  shows "\<exists>st m. train this dat labs options rnd = Some (Inr st, m)"
proof -
  define opts where "opts = (case options of None \<Rightarrow> no_options | Some opts \<Rightarrow> opts)"
  obtain kern m1 where sk: "select_kernel opts (this\<lparr>data := dat, labels := labs\<rparr>) = (kern, m1)"
    by (cases "select_kernel opts (this\<lparr>data := dat, labels := labs\<rparr>)")
  from assms(1) obtain row0 rest where Cons: "dat = row0 # rest" by (cases dat) auto
  define m4 where "m4 = initialise opts kern dat row0 (m1\<lparr>kernel := kern, N := length dat\<rparr>)"
  define L where "L = \<lparr>l_data = dat, l_labels = labs, l_C = or_default (opt_C opts) 1,
      l_tol = or_default (opt_tol opts) (1 / 10000),
      l_maxiter = or_default (opt_maxiter opts) 10000,
      l_numpasses = or_default (opt_numpasses opts) 10, l_N = length dat\<rparr>"
  define alphatol where "alphatol = or_default (opt_alphatol opts) (1 / 10000000)"
  have n: "N m4 = length dat" "l_N L = length dat"
    by (simp_all add: m4_def L_def initialise_def Let_def)
  have t: "train this dat labs options rnd =
      (case smo_loop L rnd m4 0 0 0 of
         None \<Rightarrow> None
       | Some (m5, iter, passes, k) \<Rightarrow>
           Some (Inr \<lparr>iters = iter\<rparr>,
                 if kernelType m5 = Some ''linear'' then compute_weights dat labs m5
                 else retain_support alphatol m5))"
    unfolding train_def Let_def opts_def [symmetric] sk prod.case m4_def L_def alphatol_def
    by (subst (1) Cons) (simp only: list.case)
  from smo_loop_returns [of rnd m4 L 0 0 0] assms(2) n
  obtain m5 iter passes k where "smo_loop L rnd m4 0 0 0 = Some (m5, iter, passes, k)"
    by auto
  with t show ?thesis by simp
qed

lemma predict_each: "predict m dat = map (predictOne m) dat"
proof -
  have "map (\<lambda>i. marginOne m (dat ! i)) [0..<length dat]
          = map (marginOne m) (map (\<lambda>i. dat ! i) [0..<length dat])"
    by (simp only: map_map comp_def)
  also have "\<dots> = map (marginOne m) dat"
    by (simp only: map_nth)
  finally have "margins m dat = map (marginOne m) dat"
    by (simp only: margins_def)
  then show ?thesis
    by (simp add: predict_def predictOne_def [abs_def])
qed

subsection \<open>Example runs\<close>

lemmas smo_eval = smo_loop.simps smo_step_def marginOne_def kernelResult_def pick_j.simps
  randi_def smo_pair_def Let_def box_bounds_def clip_def new_bias_def

lemma train_example_linear:
  "train new_SVM [[1], [- 1]] [1, - 1] None (\<lambda>k. 1 / 2)
     = Some (Inr \<lparr>iters = 11\<rparr>, example_linear_model)"
  apply (simp add: train_def Let_def no_options_def or_default_def select_kernel_def new_SVM_def
      zeros_def initialise_def)
  apply (simp add: smo_eval linearKernel_def compute_weights_def example_linear_model_def)
  done


lemma train_example_custom:
  "train new_SVM [[0], [0]] [1, 1] (Some (no_options\<lparr>opt_kernel := Some (KernelFunction linearKernel)\<rparr>))
       alternating
     = Some (Inr \<lparr>iters = 10\<rparr>, example_custom_model)"
  apply (simp add: train_def Let_def no_options_def or_default_def select_kernel_def new_SVM_def
      zeros_def initialise_def)
  apply (simp add: smo_eval alternating_def retain_support_def example_custom_model_def linearKernel_def)
  done

subsection \<open>Prediction of a trained linear model\<close>

lemma linearKernel_Nil: "linearKernel [] v = 0"
  by (simp add: linearKernel_def)

lemma fold_skip: "fold (\<lambda>i f. f) xs a = a"
  by (induction xs) simp_all

lemma marginOne_no_features:
  assumes "\<not> usew m" and "kernel m = linearKernel"
  shows "marginOne m [] = b m"
  using assms by (simp add: marginOne_def linearKernel_Nil fold_skip)

text \<open>
  Claim C1. A model trained with the linear kernel predicts \<open>+1\<close> exactly when
  \<open>b + w \<cdot> x > 0\<close> and \<open>-1\<close> otherwise, so a margin of 0 gives \<open>-1\<close>; \<open>x\<close> has the
  length \<open>D\<close> that \<^verbatim>\<open>marginOne\<close> expects. When there is at least one feature the flag
  \<^verbatim>\<open>usew_\<close> is set and the prediction reads only the cached weights and the bias: replacing
  the kernel, the stored samples, their labels and multipliers and their number leaves
  it unchanged.
\<close>

theorem predictOne_linear_threshold:
  assumes "train this dat labs options rnd = Some (Inr st, m)"
    and "kernelType m = Some ''linear''"
    and "length x = D m"
  shows "predictOne m x = (if 0 < b m + (\<Sum>j<D m. x ! j * w m ! j) then 1 else - 1)
     \<and> (0 < D m \<longrightarrow>
          (\<forall>k d l a n. predictOne (m\<lparr>kernel := k, data := d, labels := l, alpha := a, N := n\<rparr>) x
                         = predictOne m x))"
proof -
  from train_result(2) [OF assms(1)] have ne: "dat \<noteq> []" by simp
  have k: "kernel m = linearKernel" using train_result(3) [OF assms(1,2)] .
  have u: "usew m = (0 < D m)" using train_result(4) [OF assms(1,2) ne] .
  show ?thesis
  proof (cases "0 < D m")
    case True
    with u have "usew m" by simp
    then show ?thesis
      by (simp add: predictOne_def marginOne_def fold_add_sum)
  next
    case False
    with u assms(3) have "\<not> usew m" "x = []" "D m = 0" by simp_all
    with k show ?thesis
      by (simp add: predictOne_def marginOne_no_features)
  qed
qed

theorem predictOne_linear_threshold_witness:
  "train new_SVM [[1], [- 1]] [1, - 1] None (\<lambda>k. 1 / 2)
     = Some (Inr \<lparr>iters = 11\<rparr>, example_linear_model)
   \<and> kernelType example_linear_model = Some ''linear''
   \<and> length [2 :: real] = D example_linear_model
   \<and> predictOne example_linear_model [2] = 1
   \<and> predictOne (example_linear_model\<lparr>kernel := makeRbfKernel 1, data := [], labels := [],
                                        alpha := [], N := 0\<rparr>) [2] = 1"
proof -
  have l: "kernelType example_linear_model = Some ''linear''"
    and d: "length [2 :: real] = D example_linear_model"
    by (simp_all add: example_linear_model_def)
  from predictOne_linear_threshold [OF train_example_linear l d]
  show ?thesis
    using train_example_linear l d
    by (simp add: example_linear_model_def predictOne_def marginOne_def)
qed

subsection \<open>Serialization round trip\<close>

lemma roundtrip_margin:
  assumes "toJSON m = (out, Inr j)"
    and "(kernelType m = Some ''linear'' \<and> (usew m \<or> (D m = 0 \<and> kernel m = linearKernel \<and> x = [])))
       \<or> (kernelType m = Some ''rbf'' \<and> \<not> usew m \<and> kernel m = makeRbfKernel (rbfSigma m))"
  shows "marginOne (snd (fromJSON new_SVM j)) x = marginOne m x"
proof -
  from assms(2) consider
      (lin) "kernelType m = Some ''linear''" "usew m"
    | (lin0) "kernelType m = Some ''linear''" "\<not> usew m" "D m = 0" "kernel m = linearKernel" "x = []"
    | (rbf) "kernelType m = Some ''rbf''" "\<not> usew m" "kernel m = makeRbfKernel (rbfSigma m)"
    by auto
  then show ?thesis
  proof cases
    case lin
    with assms(1) have "j = empty_json\<lparr>j_N := Some (N m), j_D := Some (D m), j_b := Some (b m),
        j_kernelType := Some ''linear'', j_w := Some (w m)\<rparr>"
      by (auto simp: toJSON_def Let_def)
    with lin show ?thesis
      by (simp add: fromJSON_def Let_def property_def empty_json_def marginOne_def new_SVM_def)
  next
    case lin0
    with assms(1) have "j = empty_json\<lparr>j_N := Some (N m), j_D := Some (D m), j_b := Some (b m),
        j_kernelType := Some ''linear'', j_w := Some (w m)\<rparr>"
      by (auto simp: toJSON_def Let_def)
    then have "marginOne (snd (fromJSON new_SVM j)) x = b m"
      using lin0 by (simp add: fromJSON_def Let_def property_def empty_json_def marginOne_def new_SVM_def)
    with lin0 show ?thesis by (simp add: marginOne_no_features)
  next
    case rbf
    with assms(1) have "j = empty_json\<lparr>j_N := Some (N m), j_D := Some (D m), j_b := Some (b m),
        j_kernelType := Some ''rbf'', j_rbfSigma := Some (rbfSigma m), j_data := Some (data m),
        j_labels := Some (labels m), j_alpha := Some (alpha m)\<rparr>"
      by (auto simp: toJSON_def Let_def)
    with rbf show ?thesis
      by (simp add: fromJSON_def Let_def property_def empty_json_def marginOne_def new_SVM_def)
  qed
qed

lemma fromJSON_ready:
  assumes "m = snd (fromJSON new_SVM j0)"
  shows "kernelType m = Some ''linear'' \<Longrightarrow> usew m"
    and "kernelType m = Some ''rbf'' \<Longrightarrow> \<not> usew m \<and> kernel m = makeRbfKernel (rbfSigma m)"
  using assms by (auto simp: fromJSON_def Let_def new_SVM_def split: if_splits)

text \<open>
  Claim C2. For a model with the linear or the RBF kernel, obtained from \<^verbatim>\<open>train\<close> or by
  loading a JSON object into a new \<^verbatim>\<open>SVM\<close>, the object written by \<^verbatim>\<open>toJSON\<close> and read
  back by \<^verbatim>\<open>fromJSON\<close> into a new \<^verbatim>\<open>SVM\<close> predicts the same label for \<open>x\<close> as the model
  itself.
\<close>

theorem roundtrip_prediction:
  assumes "(\<exists>this dat labs options rnd st.
               train this dat labs options rnd = Some (Inr st, m) \<and> length x = D m)
           \<or> (\<exists>j0. m = snd (fromJSON new_SVM j0))"
    and "kernelType m = Some ''linear'' \<or> kernelType m = Some ''rbf''"
    and "toJSON m = (out, Inr j)"
  shows "predictOne (snd (fromJSON new_SVM j)) x = predictOne m x"
proof -
  have "(kernelType m = Some ''linear'' \<and> (usew m \<or> (D m = 0 \<and> kernel m = linearKernel \<and> x = [])))
       \<or> (kernelType m = Some ''rbf'' \<and> \<not> usew m \<and> kernel m = makeRbfKernel (rbfSigma m))"
    using assms(1)
  proof
    assume "\<exists>this dat labs options rnd st.
               train this dat labs options rnd = Some (Inr st, m) \<and> length x = D m"
    then obtain this dat labs options rnd st where
      tr: "train this dat labs options rnd = Some (Inr st, m)" and len: "length x = D m"
      by blast
    from train_result(2) [OF tr] have ne: "dat \<noteq> []" by simp
    from assms(2) show ?thesis
    proof
      assume lin: "kernelType m = Some ''linear''"
      from train_result(3) [OF tr lin] train_result(4) [OF tr lin ne] len lin
      show ?thesis by auto
    next
      assume rbf: "kernelType m = Some ''rbf''"
      from train_result(5) [OF tr rbf] train_result(6) [OF tr rbf ne] rbf
      show ?thesis by simp
    qed
  next
    assume "\<exists>j0. m = snd (fromJSON new_SVM j0)"
    then obtain j0 where "m = snd (fromJSON new_SVM j0)" ..
    from fromJSON_ready [OF this] assms(2) show ?thesis by blast
  qed
  from roundtrip_margin [OF assms(3) this] show ?thesis
    by (simp add: predictOne_def)
qed

theorem roundtrip_prediction_witness:
  "((\<exists>this dat labs options rnd st.
        train this dat labs options rnd = Some (Inr st, example_linear_model)
        \<and> length [2 :: real] = D example_linear_model)
     \<or> (\<exists>j0. example_linear_model = snd (fromJSON new_SVM j0)))
   \<and> (kernelType example_linear_model = Some ''linear'' \<or> kernelType example_linear_model = Some ''rbf'')
   \<and> toJSON example_linear_model = ([], Inr example_linear_json)
   \<and> predictOne (snd (fromJSON new_SVM example_linear_json)) [2] = predictOne example_linear_model [2]"
proof -
  have a: "(\<exists>this dat labs options rnd st.
        train this dat labs options rnd = Some (Inr st, example_linear_model)
        \<and> length [2 :: real] = D example_linear_model)
     \<or> (\<exists>j0. example_linear_model = snd (fromJSON new_SVM j0))"
    using train_example_linear by (auto simp: example_linear_model_def)
  have c: "kernelType example_linear_model = Some ''linear'' \<or> kernelType example_linear_model = Some ''rbf''"
    by (simp add: example_linear_model_def)
  have t: "toJSON example_linear_model = ([], Inr example_linear_json)"
    by (simp add: toJSON_def example_linear_model_def example_linear_json_def Let_def)
  from roundtrip_prediction [OF a c t] a c t show ?thesis by simp
qed

subsection \<open>The width of the RBF kernel\<close>




subsection \<open>Serializing a model with a caller-supplied kernel\<close>

text \<open>
  Claim C5 says that serializing a model trained with a caller-supplied kernel fails with
  an error. The run below trains such a model; \<^verbatim>\<open>toJSON\<close> returns the empty object and
  writes one line to the console.
\<close>

theorem toJSON_custom_counterexample:
  "train new_SVM [[0], [0]] [1, 1] (Some (no_options\<lparr>opt_kernel := Some (KernelFunction linearKernel)\<rparr>))
       alternating
     = Some (Inr \<lparr>iters = 10\<rparr>, example_custom_model)
   \<and> toJSON example_custom_model
     = ([''Can't save this SVM because it's using custom, unsupported kernel...''], Inr empty_json)"
  apply (rule conjI)
   apply (simp add: train_def Let_def no_options_def or_default_def select_kernel_def new_SVM_def
      zeros_def initialise_def)
   apply (simp add: smo_eval alternating_def retain_support_def example_custom_model_def linearKernel_def)
  apply (simp add: toJSON_def example_custom_model_def)
  done

text \<open>
  Claim C5 as amended: for every model trained with a caller-supplied kernel function,
  \<^verbatim>\<open>toJSON\<close> throws nothing; it writes one console line and returns the empty object \<^verbatim>\<open>{}\<close>.
\<close>

theorem toJSON_custom_kernel:
  assumes "train this dat labs (Some opts) rnd = Some (r, m)"
    and "opt_kernel opts = Some (KernelFunction f)"
  shows "toJSON m
     = ([''Can't save this SVM because it's using custom, unsupported kernel...''], Inr empty_json)"
proof -
  from train_result(8) [OF assms(1)] assms(2) have "kernelType m = Some ''custom''"
    by simp
  then show ?thesis by (simp add: toJSON_def)
qed

theorem toJSON_custom_kernel_witness:
  "train new_SVM [[0], [0]] [1, 1] (Some (no_options\<lparr>opt_kernel := Some (KernelFunction linearKernel)\<rparr>))
       alternating
     = Some (Inr \<lparr>iters = 10\<rparr>, example_custom_model)
   \<and> opt_kernel (no_options\<lparr>opt_kernel := Some (KernelFunction linearKernel)\<rparr>)
       = Some (KernelFunction linearKernel)
   \<and> fst (toJSON example_custom_model) \<noteq> [] \<and> snd (toJSON example_custom_model) = Inr empty_json"
proof -
  have k: "opt_kernel (no_options\<lparr>opt_kernel := Some (KernelFunction linearKernel)\<rparr>)
       = Some (KernelFunction linearKernel)"
    by simp
  from toJSON_custom_kernel [OF train_example_custom k] show ?thesis
    using train_example_custom by simp
qed

subsection \<open>Training on a single sample\<close>

text \<open>
  Claim C4 says that \<^verbatim>\<open>train\<close> always terminates. With one sample the first pass finds
  \<open>alpha[0]\<close> in need of an update (the margin is 0, so \<open>labels[0] * E\<close> is \<open>- 1\<close>) and
  enters \<^verbatim>\<open>while(j === i) j = randi(0, this.N)\<close> with \<open>N = 1\<close>: every draw in \<open>[0, 1)\<close>
  gives 0 again, so the call never returns, whatever the object, the sample and the
  random source; \<^verbatim>\<open>maxiter\<close> does not bound this inner loop.
\<close>

theorem train_single_sample_never_returns:
  assumes "\<forall>k. 0 \<le> rnd k \<and> rnd k < 1" and "y = 1 \<or> y = - 1"
  shows "train this [x] [y] None rnd = None"
proof -
  obtain kern m1 where sk: "select_kernel no_options (this\<lparr>data := [x], labels := [y]\<rparr>) = (kern, m1)"
    by (cases "select_kernel no_options (this\<lparr>data := [x], labels := [y]\<rparr>)")
  define m4 where "m4 = initialise no_options kern [x] x (m1\<lparr>kernel := kern, N := 1\<rparr>)"
  define L where "L = \<lparr>l_data = [x], l_labels = [y], l_C = 1, l_tol = 1 / 10000,
     l_maxiter = 10000, l_numpasses = 10, l_N = 1\<rparr>"
  have mo: "marginOne m4 x = 0"
    using marginOne_zero_alpha [of m4 x] by (simp add: m4_def zeros_def initialise_def no_options_def)
  have "pick_j rnd (N m4) 0 0 = None"
    using pick_j_single [OF assms(1)] by (simp add: m4_def initialise_def no_options_def)
  then have st: "smo_step L rnd 0 (m4, 0, 0) = None"
    using assms(2) mo by (auto simp: smo_step_def L_def m4_def zeros_def initialise_def no_options_def)
  have c: "0 < l_numpasses L" "0 < l_maxiter L" and n: "[0..<l_N L] = [0]"
    by (simp_all add: L_def)
  have "smo_loop L rnd m4 0 0 0 = None"
    by (subst smo_loop.simps) (simp add: st c n)
  then show ?thesis
    using sk by (simp add: train_def Let_def or_default_def m4_def L_def, simp add: no_options_def)
qed

theorem train_single_sample_never_returns_witness:
  "(\<forall>k. (0::real) \<le> (\<lambda>k. 0) k \<and> (\<lambda>k. 0::real) k < 1) \<and> ((1::real) = 1 \<or> (1::real) = - 1)
   \<and> train new_SVM [[1]] [1] None (\<lambda>k. 0) = None"
  using train_single_sample_never_returns [where rnd = "\<lambda>k. 0" and y = 1 and this = new_SVM and x = "[1]"]
  by simp

subsection \<open>The prefilter\<close>

lemmas prefilter_eval = Prefiltering_def toLowerCase_def lower_char_def is_upper_def is_lower_def
  is_digit_def is_word_char_def match_firstword_def match_otherwords_def inferred_tld_def
  tld_is_word_def Let_def

lemma lower_char_dot: "(lower_char c = CHR ''.'') = (c = CHR ''.'')"
  by (cases c) (auto simp: lower_char_def is_upper_def)

lemma lower_char_not_upper: "\<not> is_upper (lower_char c)"
  by (cases c) (auto simp: lower_char_def is_upper_def)

lemma toLowerCase_fixed: "\<forall>c\<in>set s. \<not> is_upper c \<Longrightarrow> toLowerCase s = s"
  by (induction s) (simp_all add: toLowerCase_def lower_char_def)

lemma scan_otherwords_no_dot: "CHR ''.'' \<notin> set u \<Longrightarrow> scan_otherwords u = []"
  by (induction u rule: scan_otherwords.induct) auto

lemma scan_otherwords_chars: "v \<in> set (scan_otherwords u) \<Longrightarrow> set v \<subseteq> set u"
proof (induction u arbitrary: v rule: scan_otherwords.induct)
  case 1
  then show ?case by simp
next
  case (2 c cs)
  show ?case
  proof (cases "c = CHR ''.'' \<and> takeWhile is_word_char cs \<noteq> []")
    case True
    with "2.prems" have "v = takeWhile is_word_char cs \<or> v \<in> set (scan_otherwords (dropWhile is_word_char cs))"
      by simp
    then show ?thesis
    proof
      assume "v = takeWhile is_word_char cs"
      then show ?thesis by (auto dest: set_takeWhileD)
    next
      assume "v \<in> set (scan_otherwords (dropWhile is_word_char cs))"
      from "2.IH"(1) [OF True this] show ?thesis by (auto dest: set_dropWhileD)
    qed
  next
    case False
    with "2.prems" have "v \<in> set (scan_otherwords cs)" by auto
    from "2.IH"(2) [OF False this] show ?thesis by auto
  qed
qed

lemma str_includes_chars: "str_includes s t \<Longrightarrow> set t \<subseteq> set s"
proof (induction s)
  case Nil
  then show ?case by simp
next
  case (Cons c cs)
  from Cons.prems have "prefix t (c # cs) \<or> str_includes cs t" by simp
  then show ?case
  proof
    assume "prefix t (c # cs)"
    from set_mono_prefix [OF this] show ?thesis .
  next
    assume "str_includes cs t"
    with Cons.IH show ?thesis by auto
  qed
qed

lemma tld_is_word_iff:
  "tld_is_word words tld = (\<exists>item\<in>set words. toLowerCase item = tld)"
proof -
  have "fold (\<lambda>item found. if tld = toLowerCase item then True else found) words acc
          = (acc \<or> (\<exists>item\<in>set words. toLowerCase item = tld))" for acc
    by (induction words arbitrary: acc) auto
  then show ?thesis by (simp add: tld_is_word_def)
qed

lemma inferred_tld_chars:
  assumes "\<forall>v\<in>set ows. set v \<subseteq> A" and "ows \<noteq> []"
  shows "set (inferred_tld tlds ows) \<subseteq> A \<union> {CHR ''.''}"
proof (cases "length ows > 1")
  case True
  define ending where "ending = ows ! (length ows - 2) @ ''.'' @ ows ! (length ows - 1)"
  define step where "step = (\<lambda>item tld. if str_includes ending item \<and> length item > length tld
                                 \<and> str_includes item (ows ! (length ows - 1))
                              then item else tld)"
  have "ows ! (length ows - 2) \<in> set ows" "ows ! (length ows - 1) \<in> set ows"
    using True by simp_all
  with assms(1) have e: "set ending \<subseteq> A \<union> {CHR ''.''}"
    by (auto simp: ending_def)
  have s: "set (step item acc) \<subseteq> A \<union> {CHR ''.''}" if "set acc \<subseteq> A \<union> {CHR ''.''}" for item acc
  proof (cases "step item acc = item")
    case True
    show ?thesis
    proof (cases "str_includes ending item")
      case True
      from str_includes_chars [OF this] e \<open>step item acc = item\<close> show ?thesis by auto
    next
      case False
      then have "step item acc = acc" by (simp add: step_def)
      with that show ?thesis by simp
    qed
  next
    case False
    then have "step item acc = acc" by (simp add: step_def split: if_splits)
    with that show ?thesis by simp
  qed
  have "set (fold step tlds acc) \<subseteq> A \<union> {CHR ''.''}" if "set acc \<subseteq> A \<union> {CHR ''.''}" for acc
    using that
  proof (induction tlds arbitrary: acc)
    case Nil
    then show ?case by simp
  next
    case (Cons item tlds)
    from Cons.IH [OF s [OF Cons.prems, of item]] show ?case by simp
  qed
  from this [of "[]"] True show ?thesis
    by (simp add: inferred_tld_def ending_def step_def Let_def)
next
  case False
  with assms(2) have "inferred_tld tlds ows = ows ! 0" "ows ! 0 \<in> set ows"
    by (simp_all add: inferred_tld_def)
  with assms(1) show ?thesis by auto
qed

lemma is_upper_dot: "\<not> is_upper (CHR ''.'')"
  by (simp add: is_upper_def)

lemma Prefiltering_returns:
  assumes "Prefiltering tlds words u = Inr (cand, tld, fw, ows)"
    and "\<not> str_includes (toLowerCase u) ''/''"
    and "\<not> str_includes (toLowerCase u) ''?''"
    and "\<not> str_includes (toLowerCase u) ''www''"
  shows "\<exists>l. ows = Some l \<and> match_otherwords (toLowerCase u) = Some l
            \<and> tld = inferred_tld tlds l
            \<and> cand = (tld \<noteq> ''com'' \<and> tld \<noteq> ''org'' \<and> \<not> str_includes tld ''.''
                       \<and> tld_is_word words tld)"
  using assms
  by (auto simp: Prefiltering_def Let_def split: option.splits if_splits)

lemma inferred_tld_lower:
  assumes "match_otherwords (toLowerCase u) = Some l"
  shows "toLowerCase (inferred_tld tlds l) = inferred_tld tlds l"
proof -
  from assms have l: "l = scan_otherwords (toLowerCase u)" "l \<noteq> []"
    by (auto simp: match_otherwords_def split: if_splits)
  then have "\<forall>v\<in>set l. set v \<subseteq> set (toLowerCase u)"
    using scan_otherwords_chars by blast
  from inferred_tld_chars [OF this l(2)]
  have "set (inferred_tld tlds l) \<subseteq> set (toLowerCase u) \<union> {CHR ''.''}" .
  moreover have "\<forall>c\<in>set (toLowerCase u). \<not> is_upper c"
    by (simp add: toLowerCase_def lower_char_not_upper)
  ultimately have "\<forall>c\<in>set (inferred_tld tlds l). \<not> is_upper c"
    using is_upper_dot by auto
  then show ?thesis by (rule toLowerCase_fixed)
qed

text \<open>
  Claim C3. Whenever \<^verbatim>\<open>Prefiltering\<close> returns on a token whose lower-cased form has no
  \<^verbatim>\<open>/\<close>, no \<^verbatim>\<open>?\<close> and no \<^verbatim>\<open>www\<close>, the candidate flag is true exactly when the inferred tail
  is not "com", not "org", has no dot, and equals some dictionary word up to case. The
  token "you.you" with "you" among the words is a candidate with tail "you", and
  "google.com" is not a candidate, whatever the dictionaries.
\<close>

theorem Prefiltering_candidate_iff:
  "(Prefiltering tlds words u = Inr (cand, tld, fw, ows)
      \<and> \<not> str_includes (toLowerCase u) ''/'' \<and> \<not> str_includes (toLowerCase u) ''?''
      \<and> \<not> str_includes (toLowerCase u) ''www''
     \<longrightarrow> cand = (tld \<noteq> ''com'' \<and> tld \<noteq> ''org'' \<and> \<not> str_includes tld ''.''
                  \<and> (\<exists>item\<in>set words. toLowerCase item = toLowerCase tld)))
   \<and> (''you'' \<in> set words
        \<longrightarrow> Prefiltering tlds words ''you.you'' = Inr (True, ''you'', ''you'', Some [''you'']))
   \<and> Prefiltering tlds words ''google.com'' = Inr (False, ''com'', ''google'', Some [''com''])"
proof (intro conjI impI)
  assume a: "Prefiltering tlds words u = Inr (cand, tld, fw, ows)
      \<and> \<not> str_includes (toLowerCase u) ''/'' \<and> \<not> str_includes (toLowerCase u) ''?''
      \<and> \<not> str_includes (toLowerCase u) ''www''"
  then obtain l where l: "match_otherwords (toLowerCase u) = Some l" "tld = inferred_tld tlds l"
    and c: "cand = (tld \<noteq> ''com'' \<and> tld \<noteq> ''org'' \<and> \<not> str_includes tld ''.''
                       \<and> tld_is_word words tld)"
    using Prefiltering_returns [of tlds words u cand tld fw ows] by blast
  from inferred_tld_lower [OF l(1)] l(2) have "toLowerCase tld = tld" by simp
  with c show "cand = (tld \<noteq> ''com'' \<and> tld \<noteq> ''org'' \<and> \<not> str_includes tld ''.''
                  \<and> (\<exists>item\<in>set words. toLowerCase item = toLowerCase tld))"
    by (simp add: tld_is_word_iff)
next
  assume "''you'' \<in> set words"
  moreover have "toLowerCase ''you'' = ''you''"
    by (simp add: toLowerCase_def lower_char_def is_upper_def)
  ultimately have "tld_is_word words ''you''"
    unfolding tld_is_word_iff by blast
  then show "Prefiltering tlds words ''you.you'' = Inr (True, ''you'', ''you'', Some [''you''])"
    by (simp add: Prefiltering_def toLowerCase_def lower_char_def is_upper_def is_lower_def
        is_digit_def is_word_char_def match_firstword_def match_otherwords_def inferred_tld_def Let_def)
next
  show "Prefiltering tlds words ''google.com'' = Inr (False, ''com'', ''google'', Some [''com''])"
    by (simp add: Prefiltering_def toLowerCase_def lower_char_def is_upper_def is_lower_def
        is_digit_def is_word_char_def match_firstword_def match_otherwords_def inferred_tld_def Let_def)
qed

theorem Prefiltering_candidate_iff_witness:
  "Prefiltering [''co.uk'', ''uk'', ''you''] [''You''] ''see.Bar.YOU'' = Inr (True, ''you'', ''see'', Some [''bar'', ''you''])
   \<and> \<not> str_includes (toLowerCase ''see.Bar.YOU'') ''/'' \<and> \<not> str_includes (toLowerCase ''see.Bar.YOU'') ''?''
   \<and> \<not> str_includes (toLowerCase ''see.Bar.YOU'') ''www''
   \<and> (''you'' \<noteq> ''com'' \<and> ''you'' \<noteq> ''org'' \<and> \<not> str_includes ''you'' ''.''
               \<and> (\<exists>item\<in>set [''You'']. toLowerCase item = toLowerCase ''you''))
   \<and> ''you'' \<in> set [''you'']
   \<and> Prefiltering [] [''you''] ''you.you'' = Inr (True, ''you'', ''you'', Some [''you''])"
proof -
  have p: "Prefiltering [''co.uk'', ''uk'', ''you''] [''You''] ''see.Bar.YOU'' = Inr (True, ''you'', ''see'', Some [''bar'', ''you''])"
    by (simp add: prefilter_eval)
  have n: "\<not> str_includes (toLowerCase ''see.Bar.YOU'') ''/''" "\<not> str_includes (toLowerCase ''see.Bar.YOU'') ''?''"
    "\<not> str_includes (toLowerCase ''see.Bar.YOU'') ''www''"
    by (simp_all add: toLowerCase_def lower_char_def is_upper_def)
  have y: "''you'' \<in> set [''you'']" by simp
  from Prefiltering_candidate_iff [of "[''co.uk'', ''uk'', ''you'']" "[''You'']" "''see.Bar.YOU''" True "''you''" "''see''" "Some [''bar'', ''you'']"]
    p n
  have 1: "''you'' \<noteq> ''com'' \<and> ''you'' \<noteq> ''org'' \<and> \<not> str_includes ''you'' ''.''
               \<and> (\<exists>item\<in>set [''You'']. toLowerCase item = toLowerCase ''you'')"
    by blast
  from Prefiltering_candidate_iff [of "[]" "[''you'']"] y
  have 2: "Prefiltering [] [''you''] ''you.you'' = Inr (True, ''you'', ''you'', Some [''you''])"
    by blast
  from p n 1 y 2 show ?thesis by blast
qed

text \<open>
  Claim C6 says that a token without a dot makes the prefilter return candidate = false
  without crashing. Such a token (with no \<^verbatim>\<open>/\<close>, \<^verbatim>\<open>?\<close> or \<^verbatim>\<open>www\<close>) leaves \<^verbatim>\<open>otherwords\<close>
  \<^verbatim>\<open>null\<close>, and \<^verbatim>\<open>otherwords.length\<close> on line 560 throws a \<^verbatim>\<open>TypeError\<close>: the call returns
  nothing.
\<close>

theorem Prefiltering_no_dot_throws:
  assumes "CHR ''.'' \<notin> set u"
    and "\<not> str_includes (toLowerCase u) ''/''" and "\<not> str_includes (toLowerCase u) ''?''"
    and "\<not> str_includes (toLowerCase u) ''www''"
  shows "Prefiltering tlds words u = Inl TypeError"
proof -
  have "CHR ''.'' \<notin> set (toLowerCase u)"
  proof
    assume "CHR ''.'' \<in> set (toLowerCase u)"
    then obtain c where "c \<in> set u" "lower_char c = CHR ''.''"
      by (auto simp: toLowerCase_def)
    with assms(1) show False by (simp add: lower_char_dot)
  qed
  then have "match_otherwords (toLowerCase u) = None"
    by (simp add: match_otherwords_def scan_otherwords_no_dot)
  with assms(2-4) show ?thesis
    by (simp add: Prefiltering_def Let_def split: option.splits)
qed

theorem Prefiltering_no_dot_throws_witness:
  "CHR ''.'' \<notin> set ''hello''
   \<and> \<not> str_includes (toLowerCase ''hello'') ''/'' \<and> \<not> str_includes (toLowerCase ''hello'') ''?''
   \<and> \<not> str_includes (toLowerCase ''hello'') ''www''
   \<and> Prefiltering [''com'', ''you''] [''hello'', ''you''] ''hello'' = Inl TypeError"
proof -
  have d: "CHR ''.'' \<notin> set ''hello''" by simp
  have n: "\<not> str_includes (toLowerCase ''hello'') ''/''" "\<not> str_includes (toLowerCase ''hello'') ''?''"
    "\<not> str_includes (toLowerCase ''hello'') ''www''"
    by (simp_all add: toLowerCase_def lower_char_def is_upper_def)
  from Prefiltering_no_dot_throws [OF d n] d n show ?thesis by blast
qed

subsection \<open>The feature extractor\<close>


lemma calculateFeatures_example:
  "calculateFeatures (example_environment 200) [''you''] ''you'' (Some [''you'']) 0 [''you.you'']
       ''you'' [] example_texts
     = Inr [example_element]"
  by (simp add: calculateFeatures_def example_environment_def example_texts_def example_element_def
      Let_def DNS_Query_def DNS_callApi_def DONE_def string_likeness_def short_count_def
      toLowerCase_def lower_char_def is_upper_def position_flags_def filled_element_def)


lemma calculateFeatures_returns:
  assumes "calculateFeatures env words fw ows i urls tld arr texts = Inr arr'"
  shows "\<exists>flags rep prep str.
            arr' = DNS_Query (send env) (urls ! i) QueryType_NS
                  (\<lambda>dat a. a @ [(filled_element (urls ! i) flags rep prep tld str)
                                   \<lparr>ns := (if length dat = 0 then 1 else 0)\<rparr>]) arr
            \<and> (\<exists>x y z. flags = position_flags x y z)"
proof -
  from assms have r: "\<not> (length texts \<le> i \<or> length urls \<le> i)"
    by (auto simp: calculateFeatures_def)
  from assms r obtain startof_url where
    x: "RegExp_exec env (urls ! i) (tu_text (texts ! i)) = Inr (Some startof_url)"
    by (cases "RegExp_exec env (urls ! i) (tu_text (texts ! i))")
       (auto simp: calculateFeatures_def Let_def split: option.splits)
  from assms r x obtain matches where
    m: "matchAll env (urls ! i) (tu_text (texts ! i)) = Inr matches"
    by (cases "matchAll env (urls ! i) (tu_text (texts ! i))")
       (auto simp: calculateFeatures_def Let_def)
  define pat where "pat = ''([^ '' @ [CHR 0x0D, CHR 0x0A] @ '']+) '' @ urls ! i"
  from assms r x m obtain matches' where
    m': "matchAll env pat (tu_text (texts ! i)) = Inr matches'"
    by (cases "matchAll env pat (tu_text (texts ! i))")
       (auto simp: calculateFeatures_def Let_def pat_def)
  from assms r x m m' obtain prep where
    p: "(if length matches' = 0 then Inr 1 else preposition_loop matches' 0) = Inr prep"
    by (cases "if length matches' = 0 then Inr 1 else preposition_loop matches' 0")
       (auto simp: calculateFeatures_def Let_def pat_def)
  from assms r x m m' p obtain l where l: "ows = Some l"
    by (cases ows) (auto simp: calculateFeatures_def Let_def pat_def)
  from assms r x m m' [unfolded pat_def] p l
  have "arr' = DNS_Query (send env) (urls ! i) QueryType_NS
                  (\<lambda>dat a. a @ [(filled_element (urls ! i)
                       (position_flags startof_url (length (tu_text (texts ! i))) (length (urls ! i)))
                       (if length matches > 1 then 1 else 0) prep tld
                       (string_likeness env words fw l (urls ! i)))
                                   \<lparr>ns := (if length dat = 0 then 1 else 0)\<rparr>]) arr"
    by (simp add: calculateFeatures_def Let_def del: append.simps list.size)
  then show ?thesis by blast
qed

lemma one_position_filled:
  "one_position ((filled_element u (position_flags x y z) rep prep tld str)\<lparr>ns := v\<rparr>)"
  by (simp add: one_position_def filled_element_def position_flags_def)

lemma tld_flags_filled:
  "tld_flags ((filled_element u flags rep prep tld str)\<lparr>ns := v\<rparr>)
     = map (\<lambda>t. if tld = t then 1 else 0)
         [''net'', ''co'', ''gov'', ''it'', ''my'', ''no'', ''so'', ''you'', ''to'', ''zip'']"
  by (simp only: tld_flags_def filled_element_def url_element.simps list.map)

lemma one_hot_distinct:
  fixes t :: "'a"
  assumes "distinct ts"
  shows "length (filter (\<lambda>v. v = (1::real)) (map (\<lambda>s. if t = s then 1 else 0) ts)) \<le> 1"
  using assms
proof (induction ts)
  case Nil
  then show ?case by simp
next
  case (Cons s ts)
  show ?case
  proof (cases "t = s")
    case True
    with Cons.prems have "t \<notin> set ts" by simp
    then have "filter (\<lambda>v. v = (1::real)) (map (\<lambda>s. if t = s then 1 else 0) ts) = []"
      by (induction ts) auto
    with True show ?thesis by simp
  next
    case False
    with Cons show ?thesis by simp
  qed
qed

lemma one_hot_values:
  "set (map (\<lambda>s. if t = s then (1::real) else 0) ts) \<subseteq> {0, 1}"
  by auto

text \<open>
  Claim C9. \<^verbatim>\<open>calculateFeatures\<close> either leaves the array as it is or pushes one element;
  in the element pushed exactly one of \<^verbatim>\<open>beginning\<close>, \<^verbatim>\<open>middle\<close>, \<^verbatim>\<open>end\<close> is 1 and the other
  two are 0, every one of the ten tail flags is 0 or 1, and at most one of them is 1.
  These are the entries 4 to 6 and 7 to 16 of the vector handed to the classifier.
\<close>

theorem feature_vector_flags:
  assumes "calculateFeatures env words fw ows i urls tld arr texts = Inr arr'"
  shows "arr' = arr \<or>
     (\<exists>e. arr' = arr @ [e] \<and> one_position e
           \<and> set (tld_flags e) \<subseteq> {0, 1}
           \<and> length (filter (\<lambda>v. v = 1) (tld_flags e)) \<le> 1
           \<and> take 3 (drop 4 (format_element e)) = [beginning e, end_flag e, middle e]
           \<and> drop 7 (format_element e) = tld_flags e)"
proof -
  from calculateFeatures_returns [OF assms] obtain flags rep prep str x y z where
    a: "arr' = DNS_Query (send env) (urls ! i) QueryType_NS
                  (\<lambda>dat a. a @ [(filled_element (urls ! i) flags rep prep tld str)
                                   \<lparr>ns := (if length dat = 0 then 1 else 0)\<rparr>]) arr"
    and f: "flags = position_flags x y z"
    by blast
  define q where "q = send env \<lparr>req_Action = ''Query'', req_Domain = urls ! i, req_Type = QueryType_NS\<rparr>"
  show ?thesis
  proof (cases "readyState q = DONE \<and> status q = 200")
    case True
    define e where "e = (filled_element (urls ! i) flags rep prep tld str)
                           \<lparr>ns := (if length (response q) = 0 then 1 else 0)\<rparr>"
    from a True have "arr' = arr @ [e]"
      by (simp add: DNS_Query_def DNS_callApi_def q_def e_def Let_def)
    moreover have "one_position e"
      unfolding e_def f by (rule one_position_filled)
    moreover have t: "tld_flags e = map (\<lambda>t. if tld = t then 1 else 0)
         [''net'', ''co'', ''gov'', ''it'', ''my'', ''no'', ''so'', ''you'', ''to'', ''zip'']"
      unfolding e_def by (rule tld_flags_filled)
    moreover have "set (tld_flags e) \<subseteq> {0, 1}"
      unfolding t by (rule one_hot_values)
    moreover have "length (filter (\<lambda>v. v = 1) (tld_flags e)) \<le> 1"
      unfolding t by (rule one_hot_distinct) simp
    moreover have "take 3 (drop 4 (format_element e)) = [beginning e, end_flag e, middle e]"
      "drop 7 (format_element e) = tld_flags e"
      by (simp_all add: format_element_def tld_flags_def)
    ultimately show ?thesis by blast
  next
    case False
    with a have "arr' = arr"
      by (auto simp: DNS_Query_def DNS_callApi_def q_def Let_def)
    then show ?thesis ..
  qed
qed

theorem feature_vector_flags_witness:
  "calculateFeatures (example_environment 200) [''you''] ''you'' (Some [''you'']) 0 [''you.you'']
       ''you'' [] example_texts = Inr [example_element]
   \<and> one_position example_element
   \<and> length (filter (\<lambda>v. v = 1) (tld_flags example_element)) \<le> 1"
proof -
  from feature_vector_flags [OF calculateFeatures_example]
  show ?thesis using calculateFeatures_example by auto
qed




text \<open>
  Claim C10 says that a hyphen in any segment forces the string flag to 0 even when the
  short-segment condition \<^verbatim>\<open>count == otherwords.length - 1\<close> holds. Below the condition
  holds and a segment has a hyphen, once in the first segment and once in a remaining
  one; the flag is 1 both times.
\<close>

theorem string_likeness_hyphen_counterexample:
  "short_count ''a-b'' [''c''] = int (length [''c'']) - 1
   \<and> str_includes ''a-b'' ''-''
   \<and> string_likeness (example_environment 200) [''you''] ''a-b'' [''c''] ''a-b.c'' = 1
   \<and> short_count ''ab'' [''c-d''] = int (length [''c-d'']) - 1
   \<and> str_includes ''c-d'' ''-''
   \<and> string_likeness (example_environment 200) [''you''] ''ab'' [''c-d''] ''ab.c-d'' = 1"
  by (simp add: string_likeness_def short_count_def)

text \<open>
  Claim C10 as amended: the short-segment condition is tested first, and when it holds
  the flag is 1 whether or not a segment has a hyphen; the hyphen check is reached only
  when the condition fails, and then a hyphen in the first segment forces the flag to 0.
\<close>

theorem string_likeness_short_rule_first:
  "(short_count firstword otherwords = int (length otherwords) - 1
      \<longrightarrow> string_likeness env words firstword otherwords u = 1)
   \<and> (short_count firstword otherwords \<noteq> int (length otherwords) - 1
        \<and> str_includes firstword ''-''
      \<longrightarrow> string_likeness env words firstword otherwords u = 0)"
  by (simp add: string_likeness_def containsDash_def Let_def)

theorem string_likeness_short_rule_first_witness:
  "short_count ''a-b'' [''c''] = int (length [''c'']) - 1
   \<and> string_likeness (example_environment 200) [''you''] ''a-b'' [''c''] ''a-b.c'' = 1
   \<and> short_count ''a-b'' [''c'', ''d''] \<noteq> int (length [''c'', ''d'']) - 1
   \<and> str_includes ''a-b'' ''-''
   \<and> string_likeness (example_environment 200) [''you''] ''a-b'' [''c'', ''d''] ''a-b.c.d'' = 0"
proof -
  have 1: "short_count ''a-b'' [''c''] = int (length [''c'']) - 1"
    and 2: "short_count ''a-b'' [''c'', ''d''] \<noteq> int (length [''c'', ''d'']) - 1"
    and 3: "str_includes ''a-b'' ''-''"
    by (simp_all add: short_count_def)
  from string_likeness_short_rule_first [of "''a-b''" "[''c'']" "example_environment 200" "[''you'']" "''a-b.c''"]
    string_likeness_short_rule_first [of "''a-b''" "[''c'', ''d'']" "example_environment 200" "[''you'']" "''a-b.c.d''"]
    1 2 3
  show ?thesis by blast
qed

end
